theory Spec2Isabelle
  imports Main
begin

section \<open>Strings as Python handles them\<close>

text \<open>
  Python's \<^verbatim>\<open>s.split(sep)\<close> for a one-character separator: the pieces between the
  separators, always at least one piece (the empty string splits to one empty piece).
\<close>

fun str_split :: "char \<Rightarrow> string \<Rightarrow> string list" where
  "str_split sep [] = [[]]"
| "str_split sep (c # cs) =
     (if c = sep then [] # str_split sep cs
      else (case str_split sep cs of
              w # ws \<Rightarrow> (c # w) # ws
            | [] \<Rightarrow> [[c]]))"

text \<open>Python's \<^verbatim>\<open>sep.join(xs)\<close>.\<close>

fun str_join :: "string \<Rightarrow> string list \<Rightarrow> string" where
  "str_join sep [] = []"
| "str_join sep [x] = x"
| "str_join sep (x # y # ys) = x @ sep @ str_join sep (y # ys)"

text \<open>Python's \<^verbatim>\<open>s.startswith(p)\<close>.\<close>

definition startswith :: "string \<Rightarrow> string \<Rightarrow> bool" where
  "startswith s p = (take (length p) s = p)"

definition nl :: char where
  "nl = CHR 0x0A"

definition dquote :: char where
  "dquote = CHR 0x22"

section \<open>The objects of the version-control library\<close>

text \<open>
  The program reads the repository through GitPython. A blob carries its MIME type, its
  bytes and its path; a diff entry has an \<^verbatim>\<open>a_blob\<close> and a \<^verbatim>\<open>b_blob\<close>, each possibly
  \<^verbatim>\<open>None\<close>; a commit has a message and a hexadecimal identifier.
\<close>

record blob =
  mime_type :: string
  data_stream :: string
  blob_path :: string

record git_diff =
  a_blob :: "blob option"
  b_blob :: "blob option"

record commit =
  message :: string
  hexsha :: string

text \<open>
  The variable \<^verbatim>\<open>rev\<close> of the extractor first holds the identifier of the empty tree (a
  string) and then the commit of the previous iteration.
\<close>

datatype revision = Sha string | Rev commit

text \<open>
  A repository: \<^verbatim>\<open>iter_commits()\<close> lists the commits newest first, and
  \<^verbatim>\<open>commit.diff(rev)\<close> lists the diff entries of a commit against a revision.
\<close>

record repo =
  iter_commits :: "commit list"
  commit_diff :: "commit \<Rightarrow> revision \<Rightarrow> git_diff list"

section \<open>The records the program builds\<close>

record file_change =
  path :: string
  diff :: string

record commit_record =
  title :: string
  hash :: string
  body :: string
  changes :: "file_change list"

record toc_entry =
  toc_title :: string
  toc_path :: string

record page_context =
  ctx_title :: string
  ctx_hash :: string
  ctx_body :: string
  ctx_toc :: "toc_entry list"
  ctx_changes :: "file_change list"

section \<open>Library routines and failures\<close>

text \<open>
  The routines of the third-party libraries are parameters of the model: decoding bytes
  as UTF-8 (\<^verbatim>\<open>None\<close> where Python raises), \<^verbatim>\<open>difflib.unified_diff\<close>, \<^verbatim>\<open>slugify\<close>,
  \<^verbatim>\<open>markdown\<close> with its list of extensions, the rendering of a Jinja template (the
  template's text and the context), and \<^verbatim>\<open>str(Path(p))\<close>, the normalised text of a path.
\<close>

record library =
  decode_utf8 :: "string \<Rightarrow> string option"
  unified_diff :: "string list \<Rightarrow> string list \<Rightarrow> string \<Rightarrow> string \<Rightarrow> string list"
  slugify :: "string \<Rightarrow> string"
  markdown :: "string \<Rightarrow> string list \<Rightarrow> string"
  template_render :: "string \<Rightarrow> page_context \<Rightarrow> string"
  path_str :: "string \<Rightarrow> string"

datatype error =
  ValueError
  | UnicodeDecodeError
  | AttributeError
  | FileNotFoundError
  | NotADirectoryError
  | InvalidGitRepositoryError
  | NoSuchPathError
  | OSError

text \<open>
  What the program sees and changes outside its own variables: the files (by path) with
  their content, the directories, the two output streams, the repositories that
  \<^verbatim>\<open>Repo(path)\<close> can open, and for every path whether the file system lets the program
  open it for writing (a name that is too long, a directory of that name or missing
  rights make \<^verbatim>\<open>open(p, "w")\<close> raise).
\<close>

record world =
  files :: "string \<rightharpoonup> string"
  dirs :: "string set"
  stdout :: "string list"
  stderr :: "string list"
  repos :: "string \<rightharpoonup> repo"
  can_write :: "string \<Rightarrow> bool"

definition path_exists :: "world \<Rightarrow> string \<Rightarrow> bool" where
  "path_exists w p = (p \<in> dom (files w) \<or> p \<in> dirs w)"

text \<open>
  \<^verbatim>\<open>with open(p, "w") as f: f.write(content)\<close>: the file then holds the content, or
  \<^verbatim>\<open>open\<close> raises and nothing is written.
\<close>

definition write_file :: "string \<Rightarrow> string \<Rightarrow> world \<Rightarrow> error + world" where
  "write_file p content w =
     (if can_write w p then Inr (w\<lparr>files := (files w)(p \<mapsto> content)\<rparr>) else Inl OSError)"

section \<open>extract_repo_data\<close>

definition empty_tree :: string where
  "empty_tree = ''4b825dc642cb6eb9a060e54bf8d69288fbee4904''"

text \<open>\<^verbatim>\<open>blob.data_stream.read().decode("utf8").split("\n")\<close>\<close>

definition read_lines :: "library \<Rightarrow> blob \<Rightarrow> error + string list" where
  "read_lines lib b =
     (case decode_utf8 lib (data_stream b) of
        None \<Rightarrow> Inl UnicodeDecodeError
      | Some s \<Rightarrow> Inr (str_split nl s))"

text \<open>
  The three branches of the loop body that fill \<^verbatim>\<open>original\<close>, \<^verbatim>\<open>modified\<close> and
  \<^verbatim>\<open>blob_path\<close> (here \<open>p\<close>). In the last branch both blobs are read, \<^verbatim>\<open>a_blob\<close> first; reading an
  attribute of \<^verbatim>\<open>None\<close> there raises.
\<close>

fun blob_sides :: "library \<Rightarrow> blob option \<Rightarrow> blob option
    \<Rightarrow> error + (string list \<times> string list \<times> string)" where
  "blob_sides lib None (Some b) =
     (case read_lines lib b of
        Inl e \<Rightarrow> Inl e
      | Inr modified \<Rightarrow> Inr ([], modified, blob_path b))"
| "blob_sides lib (Some a) None =
     (case read_lines lib a of
        Inl e \<Rightarrow> Inl e
      | Inr original \<Rightarrow> Inr (original, [], blob_path a))"
| "blob_sides lib (Some a) (Some b) =
     (case read_lines lib a of
        Inl e \<Rightarrow> Inl e
      | Inr original \<Rightarrow>
          (case read_lines lib b of
             Inl e \<Rightarrow> Inl e
           | Inr modified \<Rightarrow> Inr (original, modified, blob_path a)))"
| "blob_sides lib None None = Inl AttributeError"

text \<open>The two guards that skip a path whose blob is not plain text.\<close>

definition not_text :: "blob option \<Rightarrow> bool" where
  "not_text bo = (case bo of None \<Rightarrow> False | Some b \<Rightarrow> \<not> startswith (mime_type b) ''text'')"

text \<open>
  One iteration of the inner loop: \<^verbatim>\<open>Inr None\<close> is \<^verbatim>\<open>continue\<close>, \<^verbatim>\<open>Inr (Some ch)\<close> the
  change appended to \<^verbatim>\<open>changes\<close>.
\<close>

definition process_diff :: "library \<Rightarrow> git_diff \<Rightarrow> error + file_change option" where
  "process_diff lib d =
     (if not_text (a_blob d) then Inr None
      else if not_text (b_blob d) then Inr None
      else (case blob_sides lib (a_blob d) (b_blob d) of
              Inl e \<Rightarrow> Inl e
            | Inr (original, modified, p) \<Rightarrow>
                (let delta = unified_diff lib modified original p p
                 in Inr (Some \<lparr>path = p, diff = str_join [nl] delta\<rparr>))))"

text \<open>The inner loop over \<^verbatim>\<open>commit.diff(rev)\<close>, with \<^verbatim>\<open>changes\<close> as accumulator.\<close>

fun diff_loop :: "library \<Rightarrow> git_diff list \<Rightarrow> file_change list \<Rightarrow> error + file_change list" where
  "diff_loop lib [] chs = Inr chs"
| "diff_loop lib (d # ds) chs =
     (case process_diff lib d of
        Inl e \<Rightarrow> Inl e
      | Inr None \<Rightarrow> diff_loop lib ds chs
      | Inr (Some ch) \<Rightarrow> diff_loop lib ds (chs @ [ch]))"

text \<open>\<^verbatim>\<open>title, _, *body = commit.message.split("\n")\<close>: fewer than two pieces raise.\<close>

definition unpack_message :: "string \<Rightarrow> error + (string \<times> string list)" where
  "unpack_message m =
     (case str_split nl m of
        t # u # b \<Rightarrow> Inr (t, b)
      | _ \<Rightarrow> Inl ValueError)"

definition progress_line :: "string \<Rightarrow> string" where
  "progress_line t = ''Processing '' @ [dquote] @ t @ [dquote] @ ''...'' @ [nl]"

text \<open>
  The state of the outer loop: the revision to compare with, the records so far and what
  was written to standard output.
\<close>

record extract_state =
  es_rev :: revision
  es_data :: "commit_record list"
  es_stdout :: "string list"

text \<open>
  The body of the outer loop. On a failure the state reached so far is kept beside the
  error, since the progress line of the failing commit may already be written.
\<close>

definition extract_commit :: "library \<Rightarrow> repo \<Rightarrow> extract_state \<Rightarrow> commit
    \<Rightarrow> extract_state \<times> error option" where
  "extract_commit lib r st c =
     (case unpack_message (message c) of
        Inl e \<Rightarrow> (st, Some e)
      | Inr (t, b) \<Rightarrow>
          (let st1 = st\<lparr>es_stdout := es_stdout st @ [progress_line t]\<rparr>
           in (case diff_loop lib (commit_diff r c (es_rev st)) [] of
                 Inl e \<Rightarrow> (st1, Some e)
               | Inr chs \<Rightarrow>
                   (st1\<lparr>es_data := es_data st1 @
                          [\<lparr>title = t, hash = hexsha c, body = str_join [nl] b, changes = chs\<rparr>],
                        es_rev := Rev c\<rparr>, None))))"

fun extract_loop :: "library \<Rightarrow> repo \<Rightarrow> extract_state \<Rightarrow> commit list
    \<Rightarrow> extract_state \<times> error option" where
  "extract_loop lib r st [] = (st, None)"
| "extract_loop lib r st (c # cs) =
     (case extract_commit lib r st c of
        (st', Some e) \<Rightarrow> (st', Some e)
      | (st', None) \<Rightarrow> extract_loop lib r st' cs)"

text \<open>
  The whole function: what it wrote to standard output, and the list it returns or the
  exception that ends it. \<^verbatim>\<open>Repo(repo_path)\<close> raises for a path that does not exist and
  for a path that holds no repository; \<^verbatim>\<open>repo.iter_commits()\<close> raises in a repository
  without any commit, where the current branch points to nothing.
\<close>

definition extract_repo_data :: "library \<Rightarrow> world \<Rightarrow> string
    \<Rightarrow> string list \<times> (error + commit_record list)" where
  "extract_repo_data lib w repo_path =
     (if \<not> path_exists w repo_path then ([], Inl NoSuchPathError)
      else
        (case repos w repo_path of
           None \<Rightarrow> ([], Inl InvalidGitRepositoryError)
         | Some r \<Rightarrow>
             if iter_commits r = [] then ([], Inl ValueError)
             else
               (case extract_loop lib r
                       \<lparr>es_rev = Sha empty_tree, es_data = [], es_stdout = []\<rparr>
                       (rev (iter_commits r)) of
                  (st, Some e) \<Rightarrow> (es_stdout st, Inl e)
                | (st, None) \<Rightarrow> (es_stdout st, Inr (es_data st)))))"

section \<open>render_repo_data\<close>

definition render_markdown :: "library \<Rightarrow> string \<Rightarrow> string" where
  "render_markdown lib md_content = markdown lib md_content [''codehilite'', ''fenced_code'']"

definition base_html :: string where
  "base_html = ''templates/base.html''"

definition styles :: string where
  "styles = ''templates/styles.css''"

definition output_dir :: string where
  "output_dir = ''output''"

text \<open>\<^verbatim>\<open>output_dir / Path(name)\<close>, for a name without directory part.\<close>

definition in_output :: "string \<Rightarrow> string" where
  "in_output name = output_dir @ ''/'' @ name"

text \<open>\<^verbatim>\<open>slugify(title) + ".html"\<close>, computed in both loops.\<close>

definition html_filename :: "library \<Rightarrow> string \<Rightarrow> string" where
  "html_filename lib t = slugify lib t @ ''.html''"

text \<open>The first loop: one entry per page, appended in order.\<close>

definition build_toc :: "library \<Rightarrow> commit_record list \<Rightarrow> toc_entry list" where
  "build_toc lib data =
     map (\<lambda>page. \<lparr>toc_title = title page, toc_path = ''./'' @ html_filename lib (title page)\<rparr>)
       data"

text \<open>\<^verbatim>\<open>f"``` diff\n{diff}\n```"\<close>\<close>

definition fenced :: "string \<Rightarrow> string" where
  "fenced d = ''``` diff'' @ [nl] @ d @ [nl] @ ''```''"

text \<open>
  The inner loop of the second loop: a new list of new entries, one per change of the
  page.
\<close>

definition render_changes :: "library \<Rightarrow> file_change list \<Rightarrow> file_change list" where
  "render_changes lib chs =
     map (\<lambda>change. \<lparr>path = path change, diff = render_markdown lib (fenced (diff change))\<rparr>) chs"

definition page_ctx :: "library \<Rightarrow> toc_entry list \<Rightarrow> commit_record \<Rightarrow> page_context" where
  "page_ctx lib toc page =
     \<lparr>ctx_title = title page,
      ctx_hash = hash page,
      ctx_body = render_markdown lib (body page),
      ctx_toc = toc,
      ctx_changes = render_changes lib (changes page)\<rparr>"

text \<open>
  The second loop, as the sequence of its writes (path and content) in the order they
  happen; \<open>gi\<close> is the flag \<^verbatim>\<open>generate_index\<close>.
\<close>

fun page_loop :: "library \<Rightarrow> string \<Rightarrow> toc_entry list \<Rightarrow> bool \<Rightarrow> commit_record list
    \<Rightarrow> (string \<times> string) list" where
  "page_loop lib tpl toc gi [] = []"
| "page_loop lib tpl toc gi (page # rest) =
     (let ctx = page_ctx lib toc page
      in (in_output (html_filename lib (title page)), template_render lib tpl ctx) #
         (if gi
          then (in_output ''index.html'', template_render lib tpl ctx) #
               page_loop lib tpl toc False rest
          else page_loop lib tpl toc gi rest))"

text \<open>The two writes of the loop body for a page.\<close>

definition page_write :: "library \<Rightarrow> string \<Rightarrow> toc_entry list \<Rightarrow> commit_record \<Rightarrow> string \<times> string" where
  "page_write lib tpl toc page =
     (in_output (html_filename lib (title page)), template_render lib tpl (page_ctx lib toc page))"

definition index_write :: "library \<Rightarrow> string \<Rightarrow> toc_entry list \<Rightarrow> commit_record \<Rightarrow> string \<times> string" where
  "index_write lib tpl toc page =
     (in_output ''index.html'', template_render lib tpl (page_ctx lib toc page))"

text \<open>
  Performing the writes in their order: the first one that raises ends the function, with
  the files written before it left in place.
\<close>

fun write_all :: "(string \<times> string) list \<Rightarrow> world \<Rightarrow> world \<times> error option" where
  "write_all [] w = (w, None)"
| "write_all ((p, content) # ws) w =
     (case write_file p content w of
        Inl e \<Rightarrow> (w, Some e)
      | Inr w' \<Rightarrow> write_all ws w')"

text \<open>
  The whole function. Its result holds the world it leaves, the exception that ended it
  if any, and the argument \<^verbatim>\<open>data\<close> as the function leaves it: no statement of the
  function assigns to \<^verbatim>\<open>data\<close>, to one of its records or to one of their changes.
\<close>

record render_result =
  rr_world :: world
  rr_data :: "commit_record list"
  rr_error :: "error option"

definition render_repo_data :: "library \<Rightarrow> commit_record list \<Rightarrow> world \<Rightarrow> render_result" where
  "render_repo_data lib data w =
     (case files w base_html of
        None \<Rightarrow> \<lparr>rr_world = w, rr_data = data, rr_error = Some FileNotFoundError\<rparr>
      | Some tpl \<Rightarrow>
          (let w1 = (if path_exists w output_dir then w
                     else w\<lparr>dirs := insert output_dir (dirs w)\<rparr>)
           in (case files w1 styles of
                 None \<Rightarrow> \<lparr>rr_world = w1, rr_data = data, rr_error = Some FileNotFoundError\<rparr>
               | Some css \<Rightarrow>
                   if output_dir \<notin> dirs w1
                   then \<lparr>rr_world = w1, rr_data = data, rr_error = Some NotADirectoryError\<rparr>
                   else
                     (case write_file (in_output ''styles.css'') css w1 of
                        Inl e \<Rightarrow> \<lparr>rr_world = w1, rr_data = data, rr_error = Some e\<rparr>
                      | Inr w2 \<Rightarrow>
                          (let toc = build_toc lib data;
                               (w3, err) = write_all (page_loop lib tpl toc True data) w2
                           in \<lparr>rr_world = w3, rr_data = data, rr_error = err\<rparr>)))))"

section \<open>main\<close>

datatype outcome = Returned | Exited nat | Raised error

definition squote :: char where
  "squote = CHR 0x27"

definition main :: "library \<Rightarrow> string list \<Rightarrow> world \<Rightarrow> world \<times> outcome" where
  "main lib argv w =
     (if length argv < 2
      then (w\<lparr>stdout := stdout w @ [''Please provider a repo'' @ [nl]]\<rparr>, Exited 1)
      else
        (case argv of
           prog # arg # rest \<Rightarrow>
             (let repo_path = path_str lib arg
              in if \<not> path_exists w repo_path
                 then (w\<lparr>stderr := stderr w @ [repo_path @ '' doesn'' @ [squote] @ ''t exist'']\<rparr>,
                       Exited 1)
                 else
                   (case extract_repo_data lib w repo_path of
                      (out, Inl e) \<Rightarrow> (w\<lparr>stdout := stdout w @ out\<rparr>, Raised e)
                    | (out, Inr data) \<Rightarrow>
                        (let res = render_repo_data lib data (w\<lparr>stdout := stdout w @ out\<rparr>)
                         in (case rr_error res of
                               Some e \<Rightarrow> (rr_world res, Raised e)
                             | None \<Rightarrow> (rr_world res, Returned)))))
         | _ \<Rightarrow> (w, Raised ValueError)))"

section \<open>The sides of a diff entry\<close>

text \<open>
  GitPython's \<^verbatim>\<open>x.diff(y)\<close> runs \<^verbatim>\<open>git diff-tree x y\<close>: in every entry it returns, the
  \<^verbatim>\<open>a\<close> side is the blob in \<^verbatim>\<open>x\<close> and the \<^verbatim>\<open>b\<close> side is the blob in \<^verbatim>\<open>y\<close>; a
  side is \<^verbatim>\<open>None\<close> where the path is absent. The extractor calls \<^verbatim>\<open>commit.diff(rev)\<close>,
  so \<^verbatim>\<open>a_blob\<close> is the blob of the commit being processed and \<^verbatim>\<open>b_blob\<close> the blob of
  \<^verbatim>\<open>rev\<close>, the previous revision. (A file that the commit adds has its blob on the \<^verbatim>\<open>a\<close>
  side and nothing on the \<^verbatim>\<open>b\<close> side, so it takes the branch whose comment speaks of a
  deleted file.)
\<close>

definition commit_side :: "git_diff \<Rightarrow> blob option" where
  "commit_side d = a_blob d"

definition rev_side :: "git_diff \<Rightarrow> blob option" where
  "rev_side d = b_blob d"

text \<open>The lines of one side: none for an absent blob.\<close>

definition side_lines :: "library \<Rightarrow> blob option \<Rightarrow> error + string list" where
  "side_lines lib bo = (case bo of None \<Rightarrow> Inr [] | Some b \<Rightarrow> read_lines lib b)"

text \<open>The path that labels the diff of an entry.\<close>

definition label_path :: "git_diff \<Rightarrow> string" where
  "label_path d =
     (case a_blob d of
        Some a \<Rightarrow> blob_path a
      | None \<Rightarrow> (case b_blob d of Some b \<Rightarrow> blob_path b | None \<Rightarrow> []))"

text \<open>
  The change of an entry as the specification words it: the lines of the current commit's
  blob as the "from" side of the unified diff and the lines of the previous revision's
  blob as its "to" side.
\<close>

definition spec_change :: "library \<Rightarrow> git_diff \<Rightarrow> file_change option" where
  "spec_change lib d =
     (case side_lines lib (commit_side d) of
        Inl e \<Rightarrow> None
      | Inr after \<Rightarrow>
          (case side_lines lib (rev_side d) of
             Inl e \<Rightarrow> None
           | Inr before \<Rightarrow>
               Some \<lparr>path = label_path d,
                     diff = str_join [nl]
                       (unified_diff lib after before (label_path d) (label_path d))\<rparr>))"

section \<open>Repositories that extraction can read\<close>

text \<open>
  A blob that is present decodes as UTF-8; an entry is readable when one of the two guards
  skips it, or when it has a blob and its blobs decode. The revision that each commit is
  compared with, oldest commit first: the empty tree, then the commit before.
\<close>

definition decodes :: "library \<Rightarrow> blob option \<Rightarrow> bool" where
  "decodes lib bo =
     (case bo of None \<Rightarrow> True | Some b \<Rightarrow> decode_utf8 lib (data_stream b) \<noteq> None)"

definition readable :: "library \<Rightarrow> git_diff \<Rightarrow> bool" where
  "readable lib d =
     (not_text (a_blob d) \<or> not_text (b_blob d)
      \<or> ((a_blob d \<noteq> None \<or> b_blob d \<noteq> None)
          \<and> decodes lib (a_blob d) \<and> decodes lib (b_blob d)))"

definition compared :: "repo \<Rightarrow> (commit \<times> revision) list" where
  "compared r =
     zip (rev (iter_commits r)) (Sha empty_tree # map Rev (rev (iter_commits r)))"

section \<open>What a record is made from\<close>

text \<open>
  The record of a commit that was compared with a revision: the commit's identifier, the
  first piece of its message as title, the pieces after the second joined as body, and the
  changes the inner loop returns.
\<close>

definition made_from :: "library \<Rightarrow> repo \<Rightarrow> commit \<times> revision \<Rightarrow> commit_record \<Rightarrow> bool" where
  "made_from lib r cr rc =
     (case cr of (c, rv) \<Rightarrow>
        hash rc = hexsha c
        \<and> (case str_split nl (message c) of
              t # u # b \<Rightarrow> title rc = t \<and> body rc = str_join [nl] b
            | _ \<Rightarrow> False)
        \<and> diff_loop lib (commit_diff r c rv) [] = Inr (changes rc))"

section \<open>A concrete library and repository\<close>

text \<open>
  Stand-ins for the library routines, to run the model on concrete inputs: a unified diff
  without context lines (every "from" line removed, every "to" line added), a slug that
  lower-cases ASCII letters and joins the alphanumeric words with hyphens, and markup
  that only wraps its input.
\<close>

definition example_unified_diff :: "string list \<Rightarrow> string list \<Rightarrow> string \<Rightarrow> string \<Rightarrow> string list" where
  "example_unified_diff a b fromfile tofile =
     (if a = b then []
      else [''--- '' @ fromfile, ''+++ '' @ tofile] @ map ((#) CHR ''-'') a @ map ((#) CHR ''+'') b)"

definition is_alnum :: "char \<Rightarrow> bool" where
  "is_alnum c =
     (let n = (of_char c :: nat)
      in (48 \<le> n \<and> n \<le> 57) \<or> (65 \<le> n \<and> n \<le> 90) \<or> (97 \<le> n \<and> n \<le> 122))"

definition lower :: "char \<Rightarrow> char" where
  "lower c = (let n = (of_char c :: nat) in if 65 \<le> n \<and> n \<le> 90 then char_of (n + 32) else c)"

definition example_slugify :: "string \<Rightarrow> string" where
  "example_slugify s =
     str_join ''-'' (filter (\<lambda>w. w \<noteq> [])
       (str_split CHR ''-'' (map (\<lambda>c. if is_alnum c then lower c else CHR ''-'') s)))"

definition example_markdown :: "string \<Rightarrow> string list \<Rightarrow> string" where
  "example_markdown s exts = ''<p>'' @ s @ ''</p>''"

definition example_template :: "string \<Rightarrow> page_context \<Rightarrow> string" where
  "example_template tpl ctx =
     tpl @ ctx_title ctx @ ''|'' @ ctx_hash ctx @ ''|'' @ ctx_body ctx @
     concat (map diff (ctx_changes ctx)) @ concat (map toc_path (ctx_toc ctx))"

definition example_library :: library where
  "example_library =
     \<lparr>decode_utf8 = Some, unified_diff = example_unified_diff, slugify = example_slugify,
      markdown = example_markdown, template_render = example_template, path_str = (\<lambda>p. p)\<rparr>"

text \<open>
  A repository of two commits: the first adds \<^verbatim>\<open>foo.txt\<close>, the second changes it and adds
  an image.
\<close>

definition foo_v1 :: blob where
  "foo_v1 =
     \<lparr>mime_type = ''text/plain'', data_stream = ''a'' @ [nl] @ ''b'' @ [nl],
      blob_path = ''foo.txt''\<rparr>"

definition foo_v2 :: blob where
  "foo_v2 =
     \<lparr>mime_type = ''text/plain'', data_stream = ''a'' @ [nl] @ ''c'' @ [nl],
      blob_path = ''foo.txt''\<rparr>"

definition logo :: blob where
  "logo = \<lparr>mime_type = ''image/png'', data_stream = ''PNG'', blob_path = ''logo.png''\<rparr>"

definition added_foo :: git_diff where
  "added_foo = \<lparr>a_blob = Some foo_v1, b_blob = None\<rparr>"

definition changed_foo :: git_diff where
  "changed_foo = \<lparr>a_blob = Some foo_v2, b_blob = Some foo_v1\<rparr>"

definition added_logo :: git_diff where
  "added_logo = \<lparr>a_blob = Some logo, b_blob = None\<rparr>"

definition first_commit :: commit where
  "first_commit = \<lparr>message = ''Add foo'' @ [nl], hexsha = ''a1''\<rparr>"

definition second_commit :: commit where
  "second_commit = \<lparr>message = ''Fix bug'' @ [nl, nl] @ ''Details here'', hexsha = ''b2''\<rparr>"

definition example_diff :: "commit \<Rightarrow> revision \<Rightarrow> git_diff list" where
  "example_diff c rv =
     (if c = first_commit \<and> rv = Sha empty_tree then [added_foo]
      else if c = second_commit \<and> rv = Rev first_commit then [changed_foo, added_logo]
      else [])"

definition example_repo :: repo where
  "example_repo = \<lparr>iter_commits = [second_commit, first_commit], commit_diff = example_diff\<rparr>"

definition example_world :: world where
  "example_world =
     \<lparr>files = [base_html \<mapsto> ''<html>'', styles \<mapsto> ''body{}''],
      dirs = {''repo''}, stdout = [], stderr = [],
      repos = [''repo'' \<mapsto> example_repo],
      can_write = (\<lambda>p. length p \<le> 255)\<rparr>"

definition example_data :: "commit_record list" where
  "example_data =
     [\<lparr>title = ''Add foo'', hash = ''a1'', body = [],
       changes =
         [\<lparr>path = ''foo.txt'',
           diff = ''--- foo.txt'' @ [nl] @ ''+++ foo.txt'' @ [nl] @
                  ''+a'' @ [nl] @ ''+b'' @ [nl] @ ''+''\<rparr>]\<rparr>,
      \<lparr>title = ''Fix bug'', hash = ''b2'', body = ''Details here'',
       changes =
         [\<lparr>path = ''foo.txt'',
           diff = ''--- foo.txt'' @ [nl] @ ''+++ foo.txt'' @ [nl] @
                  ''-a'' @ [nl] @ ''-b'' @ [nl] @ ''-'' @ [nl] @
                  ''+a'' @ [nl] @ ''+c'' @ [nl] @ ''+''\<rparr>]\<rparr>]"

text \<open>A repository whose newest commit has a message of one line without line break.\<close>

definition terse_commit :: commit where
  "terse_commit = \<lparr>message = ''wip'', hexsha = ''c3''\<rparr>"

definition terse_repo :: repo where
  "terse_repo = \<lparr>iter_commits = [terse_commit, first_commit], commit_diff = example_diff\<rparr>"

definition terse_world :: world where
  "terse_world = example_world\<lparr>repos := [''repo'' \<mapsto> terse_repo]\<rparr>"

text \<open>A repository whose only commit adds an image.\<close>

definition logo_commit :: commit where
  "logo_commit = \<lparr>message = ''Add logo'' @ [nl], hexsha = ''d4''\<rparr>"

definition logo_repo :: repo where
  "logo_repo = \<lparr>iter_commits = [logo_commit], commit_diff = (\<lambda>c rv. [added_logo])\<rparr>"

text \<open>
  Records for the renderer: one whose second title slugifies to \<^verbatim>\<open>index\<close>, and one
  whose two titles slugify to the same string.
\<close>

definition index_data :: "commit_record list" where
  "index_data =
     [\<lparr>title = ''Add foo'', hash = ''a1'', body = [], changes = []\<rparr>,
      \<lparr>title = ''Index'', hash = ''b2'', body = [], changes = []\<rparr>]"

definition collide_data :: "commit_record list" where
  "collide_data =
     [\<lparr>title = ''Fix Bug!'', hash = ''a1'', body = [], changes = []\<rparr>,
      \<lparr>title = ''fix-bug'', hash = ''b2'', body = [], changes = []\<rparr>]"

section \<open>Properties of the extractor\<close>

lemma str_split_not_Nil: "str_split sep s \<noteq> []"
  by (induction s) (auto split: list.splits)

lemma length_str_split: "length (str_split sep s) = Suc (count_list s sep)"
proof (induction s)
  case Nil
  then show ?case by simp
next
  case (Cons c cs)
  then show ?case
    using str_split_not_Nil [of sep cs] by (auto split: list.splits)
qed

lemma unpack_message_fails_iff: "(\<exists>e. unpack_message m = Inl e) \<longleftrightarrow> nl \<notin> set m"
proof -
  have len: "length (str_split nl m) = Suc (count_list m nl)" by (rule length_str_split)
  have "(\<exists>e. unpack_message m = Inl e) \<longleftrightarrow> length (str_split nl m) < 2"
    by (auto simp: unpack_message_def split: list.splits)
  also have "\<dots> \<longleftrightarrow> count_list m nl = 0" using len by auto
  also have "\<dots> \<longleftrightarrow> nl \<notin> set m" by (simp add: count_list_0_iff)
  finally show ?thesis .
qed

lemma unpack_message_error: "unpack_message m = Inl e \<Longrightarrow> e = ValueError"
  by (auto simp: unpack_message_def split: list.splits)

lemma unpack_message_Inr:
  "unpack_message m = Inr (t, b) \<Longrightarrow> \<exists>u. str_split nl m = t # u # b"
  by (auto simp: unpack_message_def split: list.splits)

lemma extract_commit_None:
  assumes "extract_commit lib r st c = (st', None)"
  shows "\<exists>t u b chs. str_split nl (message c) = t # u # b
           \<and> diff_loop lib (commit_diff r c (es_rev st)) [] = Inr chs
           \<and> es_data st' = es_data st @
                [\<lparr>title = t, hash = hexsha c, body = str_join [nl] b, changes = chs\<rparr>]
           \<and> es_rev st' = Rev c
           \<and> es_stdout st' = es_stdout st @ [progress_line t]"
  using assms unfolding extract_commit_def
  by (auto simp: Let_def split: sum.splits dest!: unpack_message_Inr)

lemma extract_loop_None:
  "extract_loop lib r st cs = (st', None) \<Longrightarrow>
     \<exists>new. es_data st' = es_data st @ new
       \<and> list_all2 (made_from lib r) (zip cs (es_rev st # map Rev cs)) new"
proof (induction cs arbitrary: st)
  case Nil
  then show ?case by simp
next
  case (Cons c cs)
  from Cons.prems obtain st1 where
    step: "extract_commit lib r st c = (st1, None)" and
    rest: "extract_loop lib r st1 cs = (st', None)"
    by (auto split: prod.splits option.splits)
  from extract_commit_None [OF step] obtain t u b chs where
    parts: "str_split nl (message c) = t # u # b" and
    dl: "diff_loop lib (commit_diff r c (es_rev st)) [] = Inr chs" and
    d1: "es_data st1 = es_data st @
           [\<lparr>title = t, hash = hexsha c, body = str_join [nl] b, changes = chs\<rparr>]" and
    r1: "es_rev st1 = Rev c"
    by blast
  from Cons.IH [OF rest] obtain new where
    d': "es_data st' = es_data st1 @ new" and
    all: "list_all2 (made_from lib r) (zip cs (es_rev st1 # map Rev cs)) new"
    by blast
  have "made_from lib r (c, es_rev st)
          \<lparr>title = t, hash = hexsha c, body = str_join [nl] b, changes = chs\<rparr>"
    by (simp add: made_from_def parts dl)
  with d' d1 all r1 show ?case by simp
qed

lemma extract_repo_data_Inr:
  assumes "repos w p = Some r" and "snd (extract_repo_data lib w p) = Inr data"
  shows "list_all2 (made_from lib r)
           (zip (rev (iter_commits r)) (Sha empty_tree # map Rev (rev (iter_commits r)))) data"
proof -
  from assms obtain st where
    run: "extract_loop lib r \<lparr>es_rev = Sha empty_tree, es_data = [], es_stdout = []\<rparr>
       (rev (iter_commits r)) = (st, None)" and st: "es_data st = data"
    by (auto simp: extract_repo_data_def split: prod.splits option.splits if_splits)
  from extract_loop_None [OF run] st show ?thesis
    by simp
qed

lemma made_from_nth:
  assumes "list_all2 (made_from lib r) (zip cs (rv # map Rev cs)) data" and "k < length data"
  shows "k < length cs \<and> made_from lib r (cs ! k, (rv # map Rev cs) ! k) (data ! k)"
proof -
  from assms(1) have len: "length data = length cs"
    by (auto dest: list_all2_lengthD)
  with assms(2) have k: "k < length cs" by simp
  from assms(1) k have "made_from lib r (zip cs (rv # map Rev cs) ! k) (data ! k)"
    by (auto dest: list_all2_nthD)
  with k show ?thesis by simp
qed

lemma process_diff_readable:
  assumes "readable lib d"
  shows "\<exists>res. process_diff lib d = Inr res"
proof (cases "not_text (a_blob d) \<or> not_text (b_blob d)")
  case True
  then show ?thesis by (auto simp: process_diff_def)
next
  case False
  with assms have some: "a_blob d \<noteq> None \<or> b_blob d \<noteq> None"
    and da: "decodes lib (a_blob d)" and db: "decodes lib (b_blob d)"
    by (auto simp: readable_def)
  from some da db have "\<exists>sides. blob_sides lib (a_blob d) (b_blob d) = Inr sides"
    by (cases "a_blob d"; cases "b_blob d") (auto simp: decodes_def read_lines_def)
  with False show ?thesis
    by (auto simp: process_diff_def Let_def split: prod.splits)
qed

lemma diff_loop_total:
  "\<forall>d\<in>set ds. readable lib d \<Longrightarrow> \<exists>out. diff_loop lib ds chs = Inr out"
proof (induction ds arbitrary: chs)
  case Nil
  then show ?case by simp
next
  case (Cons d ds)
  from Cons.prems have "readable lib d" by simp
  from process_diff_readable [OF this] obtain res where res: "process_diff lib d = Inr res"
    by blast
  from Cons.prems have rest: "\<forall>d\<in>set ds. readable lib d" by simp
  show ?case
  proof (cases res)
    case None
    with res Cons.IH [OF rest, of chs] show ?thesis by simp
  next
    case (Some ch)
    with res Cons.IH [OF rest, of "chs @ [ch]"] show ?thesis by simp
  qed
qed

lemma extract_commit_total:
  assumes "nl \<in> set (message c)"
    and "\<forall>d\<in>set (commit_diff r c (es_rev st)). readable lib d"
  shows "\<exists>st1. extract_commit lib r st c = (st1, None) \<and> es_rev st1 = Rev c"
proof -
  from assms(1) obtain t b where u: "unpack_message (message c) = Inr (t, b)"
    using unpack_message_fails_iff [of "message c"]
    by (cases "unpack_message (message c)") auto
  from diff_loop_total [OF assms(2), of "[]"] obtain chs where
    "diff_loop lib (commit_diff r c (es_rev st)) [] = Inr chs"
    by blast
  with u show ?thesis
    by (simp add: extract_commit_def)
qed

lemma extract_loop_total:
  assumes "\<forall>c\<in>set cs. nl \<in> set (message c)"
    and "\<forall>cr\<in>set (zip cs (es_rev st # map Rev cs)).
           \<forall>d\<in>set (commit_diff r (fst cr) (snd cr)). readable lib d"
  shows "\<exists>st'. extract_loop lib r st cs = (st', None)"
  using assms
proof (induction cs arbitrary: st)
  case Nil
  then show ?case by simp
next
  case (Cons c cs)
  from Cons.prems have m: "nl \<in> set (message c)"
    and d: "\<forall>d\<in>set (commit_diff r c (es_rev st)). readable lib d"
    by simp_all
  from extract_commit_total [OF m d] obtain st1 where
    step: "extract_commit lib r st c = (st1, None)" and rv: "es_rev st1 = Rev c"
    by blast
  from Cons.prems have "\<forall>c\<in>set cs. nl \<in> set (message c)" by simp
  moreover from Cons.prems(2) rv
  have "\<forall>cr\<in>set (zip cs (es_rev st1 # map Rev cs)).
          \<forall>d\<in>set (commit_diff r (fst cr) (snd cr)). readable lib d"
    by simp
  ultimately obtain st' where "extract_loop lib r st1 cs = (st', None)"
    using Cons.IH by blast
  with step show ?case by simp
qed

text \<open>
  Claim C1, as amended: for a repository with N commits, N at least 1, in which the message
  of every commit has a line break and every diff entry of a commit against the revision
  before it is readable, extraction returns a list; the list has exactly N records, in the
  order oldest to newest (the reverse of \<^verbatim>\<open>iter_commits\<close>), and the record at every index
  k holds the identifier of the k-th commit in that order.
\<close>

theorem extract_one_record_per_commit:
  assumes "path_exists w p" and "repos w p = Some r" and "iter_commits r \<noteq> []"
    and "\<forall>c\<in>set (iter_commits r). nl \<in> set (message c)"
    and "\<forall>cr\<in>set (compared r). \<forall>d\<in>set (commit_diff r (fst cr) (snd cr)). readable lib d"
  shows "\<exists>out data. extract_repo_data lib w p = (out, Inr data)
           \<and> length data = length (iter_commits r)
           \<and> (\<forall>k<length data. hash (data ! k) = hexsha (rev (iter_commits r) ! k))"
proof -
  let ?cs = "rev (iter_commits r)"
  let ?st = "\<lparr>es_rev = Sha empty_tree, es_data = [], es_stdout = []\<rparr>"
  from assms(4) have m: "\<forall>c\<in>set ?cs. nl \<in> set (message c)" by simp
  from assms(5) have d: "\<forall>cr\<in>set (zip ?cs (es_rev ?st # map Rev ?cs)).
      \<forall>d\<in>set (commit_diff r (fst cr) (snd cr)). readable lib d"
    by (simp add: compared_def)
  from extract_loop_total [OF m d] obtain st' where
    run: "extract_loop lib r ?st ?cs = (st', None)"
    by blast
  with assms(1-3) have res: "extract_repo_data lib w p = (es_stdout st', Inr (es_data st'))"
    by (simp add: extract_repo_data_def)
  from extract_loop_None [OF run]
  have all: "list_all2 (made_from lib r) (zip ?cs (Sha empty_tree # map Rev ?cs)) (es_data st')"
    by simp
  then have len: "length (es_data st') = length (iter_commits r)"
    by (auto dest: list_all2_lengthD)
  have "hash (es_data st' ! k) = hexsha (?cs ! k)" if "k < length (es_data st')" for k
    using made_from_nth [OF all that] by (simp add: made_from_def)
  with res len show ?thesis by blast
qed

text \<open>The example repository, extracted.\<close>

lemma example_extract:
  "extract_repo_data example_library example_world ''repo'' =
     ([progress_line ''Add foo'', progress_line ''Fix bug''], Inr example_data)"
  by (simp add: extract_repo_data_def example_world_def example_repo_def example_library_def
      extract_commit_def unpack_message_def first_commit_def second_commit_def example_diff_def
      process_diff_def not_text_def startswith_def foo_v1_def foo_v2_def logo_def read_lines_def
      example_unified_diff_def nl_def empty_tree_def example_data_def added_foo_def
      changed_foo_def added_logo_def path_exists_def)

theorem extract_one_record_per_commit_witness:
  "path_exists example_world ''repo''
   \<and> repos example_world ''repo'' = Some example_repo
   \<and> iter_commits example_repo = [second_commit, first_commit]
   \<and> nl \<in> set (message first_commit) \<and> nl \<in> set (message second_commit)
   \<and> compared example_repo = [(first_commit, Sha empty_tree), (second_commit, Rev first_commit)]
   \<and> readable example_library added_foo
   \<and> readable example_library changed_foo
   \<and> readable example_library added_logo
   \<and> snd (extract_repo_data example_library example_world ''repo'') = Inr example_data
   \<and> length example_data = 2
   \<and> hash (example_data ! 0) = hexsha first_commit
   \<and> hash (example_data ! 1) = hexsha second_commit"
proof -
  have e: "path_exists example_world ''repo''"
    by (simp add: path_exists_def example_world_def)
  have r: "repos example_world ''repo'' = Some example_repo"
    by (simp add: example_world_def)
  have i: "iter_commits example_repo = [second_commit, first_commit]"
    by (simp add: example_repo_def)
  have n: "iter_commits example_repo \<noteq> []"
    by (simp add: i)
  have m1: "nl \<in> set (message first_commit)" by (simp add: first_commit_def)
  have m2: "nl \<in> set (message second_commit)" by (simp add: second_commit_def)
  have m: "\<forall>c\<in>set (iter_commits example_repo). nl \<in> set (message c)"
    by (simp add: i m1 m2)
  have c: "compared example_repo =
      [(first_commit, Sha empty_tree), (second_commit, Rev first_commit)]"
    by (simp add: compared_def i)
  have ne: "first_commit \<noteq> second_commit"
    by (simp add: first_commit_def second_commit_def)
  have d1: "commit_diff example_repo first_commit (Sha empty_tree) = [added_foo]"
    by (simp add: example_repo_def example_diff_def)
  have d2: "commit_diff example_repo second_commit (Rev first_commit) = [changed_foo, added_logo]"
    using ne by (simp add: example_repo_def example_diff_def)
  have r1: "readable example_library added_foo"
    by (simp add: readable_def added_foo_def decodes_def example_library_def)
  have r2: "readable example_library changed_foo"
    by (simp add: readable_def changed_foo_def decodes_def example_library_def)
  have r3: "readable example_library added_logo"
    by (simp add: readable_def added_logo_def not_text_def logo_def startswith_def)
  have rd: "\<forall>cr\<in>set (compared example_repo).
      \<forall>d\<in>set (commit_diff example_repo (fst cr) (snd cr)). readable example_library d"
    by (simp add: c d1 d2 r1 r2 r3)
  from extract_one_record_per_commit [OF e r n m rd] obtain out data where
    res: "extract_repo_data example_library example_world ''repo'' = (out, Inr data)" and
    len: "length data = length (iter_commits example_repo)" and
    ids: "\<forall>k<length data. hash (data ! k) = hexsha (rev (iter_commits example_repo) ! k)"
    by blast
  from res have data: "data = example_data"
    by (simp add: example_extract)
  have s: "snd (extract_repo_data example_library example_world ''repo'') = Inr example_data"
    by (simp add: example_extract)
  from len have l: "length example_data = 2"
    by (simp add: data i)
  from ids l have h0: "hash (example_data ! 0) = hexsha first_commit"
    and h1: "hash (example_data ! 1) = hexsha second_commit"
    by (simp_all add: data i)
  from e r i m1 m2 c r1 r2 r3 s l h0 h1 show ?thesis by blast
qed

text \<open>
  Claim C1 as stated fails: the repository below has two commits, and extraction returns no
  list for it, since the message of its newest commit has no line break.
\<close>

theorem extract_one_record_per_commit_counterexample:
  "repos terse_world ''repo'' = Some terse_repo
   \<and> length (iter_commits terse_repo) = 2
   \<and> extract_repo_data example_library terse_world ''repo'' =
       ([progress_line ''Add foo''], Inl ValueError)"
  by (simp add: extract_repo_data_def terse_world_def terse_repo_def terse_commit_def
      example_world_def example_library_def
      extract_commit_def unpack_message_def first_commit_def example_diff_def
      process_diff_def not_text_def startswith_def foo_v1_def read_lines_def
      example_unified_diff_def nl_def empty_tree_def added_foo_def path_exists_def)

text \<open>
  Claim C3: the message of every commit is split on line breaks; the title of its record
  is the piece at index 0 and the body is the pieces from index 2 on, joined with line
  breaks, so the piece at index 1 is dropped. The message \<^verbatim>\<open>"Fix bug\n\nDetails here"\<close>
  gives the title \<^verbatim>\<open>"Fix bug"\<close> and the body \<^verbatim>\<open>"Details here"\<close>.
\<close>

theorem extract_title_and_body:
  assumes "repos w p = Some r" and "snd (extract_repo_data lib w p) = Inr data"
    and "k < length data"
  shows "2 \<le> length (str_split nl (message (rev (iter_commits r) ! k)))
         \<and> title (data ! k) = str_split nl (message (rev (iter_commits r) ! k)) ! 0
         \<and> body (data ! k) =
             str_join [nl] (drop 2 (str_split nl (message (rev (iter_commits r) ! k))))"
proof -
  let ?cs = "rev (iter_commits r)"
  have all: "list_all2 (made_from lib r) (zip ?cs (Sha empty_tree # map Rev ?cs)) data"
    using assms(1,2) by (rule extract_repo_data_Inr)
  from made_from_nth [OF all assms(3)] show ?thesis
    by (auto simp: made_from_def split: list.splits)
qed

theorem extract_title_and_body_witness:
  "repos example_world ''repo'' = Some example_repo
   \<and> snd (extract_repo_data example_library example_world ''repo'') = Inr example_data
   \<and> message (rev (iter_commits example_repo) ! 1) = ''Fix bug'' @ [nl, nl] @ ''Details here''
   \<and> title (example_data ! 1) = ''Fix bug''
   \<and> body (example_data ! 1) = ''Details here''"
proof -
  have r: "repos example_world ''repo'' = Some example_repo"
    by (simp add: example_world_def)
  have d: "snd (extract_repo_data example_library example_world ''repo'') = Inr example_data"
    by (simp add: example_extract)
  have k: "1 < length example_data"
    by (simp add: example_data_def)
  have m: "message (rev (iter_commits example_repo) ! 1) = ''Fix bug'' @ [nl, nl] @ ''Details here''"
    by (simp add: example_repo_def second_commit_def)
  have s: "str_split nl (''Fix bug'' @ [nl, nl] @ ''Details here'') = [''Fix bug'', [], ''Details here'']"
    by (simp add: nl_def)
  note th = extract_title_and_body [OF r d k, unfolded m s]
  from th r d m show ?thesis
    by simp
qed

lemma extract_commit_no_line_break:
  "nl \<notin> set (message c) \<Longrightarrow> extract_commit lib r st c = (st, Some ValueError)"
proof -
  assume "nl \<notin> set (message c)"
  then obtain e where e: "unpack_message (message c) = Inl e"
    using unpack_message_fails_iff by blast
  then have "e = ValueError" by (rule unpack_message_error)
  with e show ?thesis by (simp add: extract_commit_def)
qed

lemma extract_loop_line_breaks:
  "extract_loop lib r st cs = (st', None) \<Longrightarrow> \<forall>c\<in>set cs. nl \<in> set (message c)"
proof (induction cs arbitrary: st)
  case Nil
  then show ?case by simp
next
  case (Cons c cs)
  from Cons.prems obtain st1 where
    step: "extract_commit lib r st c = (st1, None)" and
    rest: "extract_loop lib r st1 cs = (st', None)"
    by (auto split: prod.splits option.splits)
  from step have "nl \<in> set (message c)"
    using extract_commit_no_line_break [of c lib r st] by auto
  with Cons.IH [OF rest] show ?case by simp
qed

text \<open>
  Claim C10: a commit whose message has no line break ends the loop with the unpacking
  error (\<^verbatim>\<open>ValueError\<close>) when the loop reaches it, before anything is written or
  recorded for it; so extraction returns a list only if the message of every commit has a
  line break, and fails if some message has none.
\<close>

theorem extract_needs_line_break:
  "(nl \<notin> set (message c) \<longrightarrow> extract_loop lib r st (c # cs) = (st, Some ValueError))
   \<and> (repos w p = Some r \<and> snd (extract_repo_data lib w p) = Inr data \<longrightarrow>
        (\<forall>c'\<in>set (iter_commits r). nl \<in> set (message c')))
   \<and> (repos w p = Some r \<and> (\<exists>c'\<in>set (iter_commits r). nl \<notin> set (message c')) \<longrightarrow>
        (\<exists>e. snd (extract_repo_data lib w p) = Inl e))"
proof -
  have a: "nl \<notin> set (message c) \<longrightarrow> extract_loop lib r st (c # cs) = (st, Some ValueError)"
    by (simp add: extract_commit_no_line_break)
  have b: "\<forall>c'\<in>set (iter_commits r). nl \<in> set (message c')"
    if "repos w p = Some r" and "snd (extract_repo_data lib w p) = Inr data" for data
  proof -
    from that obtain st' where
      "extract_loop lib r \<lparr>es_rev = Sha empty_tree, es_data = [], es_stdout = []\<rparr>
         (rev (iter_commits r)) = (st', None)"
      by (auto simp: extract_repo_data_def split: prod.splits option.splits if_splits)
    from extract_loop_line_breaks [OF this] show ?thesis by simp
  qed
  have c: "\<exists>e. snd (extract_repo_data lib w p) = Inl e"
    if "repos w p = Some r" and "\<exists>c'\<in>set (iter_commits r). nl \<notin> set (message c')"
  proof (cases "snd (extract_repo_data lib w p)")
    case (Inl e)
    then show ?thesis by blast
  next
    case (Inr d)
    with b [OF that(1)] that(2) show ?thesis by blast
  qed
  from a b c show ?thesis by blast
qed

theorem extract_needs_line_break_witness:
  "nl \<notin> set (message terse_commit)
   \<and> repos terse_world ''repo'' = Some terse_repo
   \<and> terse_commit \<in> set (iter_commits terse_repo)
   \<and> extract_repo_data example_library terse_world ''repo'' =
       ([progress_line ''Add foo''], Inl ValueError)
   \<and> repos example_world ''repo'' = Some example_repo
   \<and> snd (extract_repo_data example_library example_world ''repo'') = Inr example_data
   \<and> nl \<in> set (message first_commit) \<and> nl \<in> set (message second_commit)"
proof -
  have m: "nl \<notin> set (message terse_commit)"
    by (simp add: terse_commit_def nl_def)
  have r: "repos terse_world ''repo'' = Some terse_repo"
    by (simp add: terse_world_def)
  have i: "terse_commit \<in> set (iter_commits terse_repo)"
    by (simp add: terse_repo_def)
  have r': "repos example_world ''repo'' = Some example_repo"
    by (simp add: example_world_def)
  have d: "snd (extract_repo_data example_library example_world ''repo'') = Inr example_data"
    by (simp add: example_extract)
  have first: "extract_commit example_library terse_repo
                 \<lparr>es_rev = Sha empty_tree, es_data = [], es_stdout = []\<rparr> first_commit =
               (\<lparr>es_rev = Rev first_commit, es_data = [example_data ! 0],
                 es_stdout = [progress_line ''Add foo'']\<rparr>, None)"
    by (simp add: terse_repo_def example_library_def
      extract_commit_def unpack_message_def first_commit_def example_diff_def
      process_diff_def not_text_def startswith_def foo_v1_def read_lines_def
      example_unified_diff_def nl_def empty_tree_def example_data_def added_foo_def)
  note th = extract_needs_line_break
    [where c = terse_commit and lib = example_library and r = terse_repo and cs = "[]"
       and st = "\<lparr>es_rev = Rev first_commit, es_data = [example_data ! 0],
          es_stdout = [progress_line ''Add foo'']\<rparr>"]
  note th' = extract_needs_line_break
    [where lib = example_library and r = example_repo and w = example_world
       and p = "''repo''" and data = example_data]
  from th m have stop: "extract_loop example_library terse_repo
      \<lparr>es_rev = Rev first_commit, es_data = [example_data ! 0],
        es_stdout = [progress_line ''Add foo'']\<rparr> [terse_commit] =
      (\<lparr>es_rev = Rev first_commit, es_data = [example_data ! 0],
        es_stdout = [progress_line ''Add foo'']\<rparr>, Some ValueError)"
    by blast
  have run: "extract_repo_data example_library terse_world ''repo'' =
       ([progress_line ''Add foo''], Inl ValueError)"
    using first stop
    by (simp add: extract_repo_data_def r terse_repo_def)
       (simp add: path_exists_def terse_world_def example_world_def)
  from th' r' d have "nl \<in> set (message first_commit) \<and> nl \<in> set (message second_commit)"
    by (simp add: example_repo_def)
  with m r i run r' d show ?thesis by simp
qed

lemma not_text_iff:
  "not_text bo \<longleftrightarrow> (\<exists>b. bo = Some b \<and> \<not> startswith (mime_type b) ''text'')"
  by (cases bo) (simp_all add: not_text_def)

lemma process_diff_skip:
  "not_text (a_blob d) \<or> not_text (b_blob d) \<Longrightarrow> process_diff lib d = Inr None"
  by (auto simp: process_diff_def)

text \<open>
  Claim C4: a diff entry with a present blob whose MIME type does not start with
  \<^verbatim>\<open>text\<close> is skipped: the iteration yields no change and leaves the list of changes as
  it was; a commit whose only diff entry is such an entry gets a record with no changes.
\<close>

theorem non_text_blob_is_skipped:
  assumes "(\<exists>a. a_blob d = Some a \<and> \<not> startswith (mime_type a) ''text'')
           \<or> (\<exists>b. b_blob d = Some b \<and> \<not> startswith (mime_type b) ''text'')"
  shows "process_diff lib d = Inr None
         \<and> diff_loop lib (d # ds) chs = diff_loop lib ds chs
         \<and> (commit_diff r c (es_rev st) = [d] \<and> nl \<in> set (message c) \<longrightarrow>
              (\<exists>st' rc. extract_commit lib r st c = (st', None)
                 \<and> es_data st' = es_data st @ [rc] \<and> hash rc = hexsha c \<and> changes rc = []))"
proof -
  from assms have skip: "process_diff lib d = Inr None"
    by (intro process_diff_skip) (simp add: not_text_iff)
  then have loop: "diff_loop lib (d # ds) chs = diff_loop lib ds chs" for ds chs
    by simp
  have "\<exists>st' rc. extract_commit lib r st c = (st', None)
          \<and> es_data st' = es_data st @ [rc] \<and> hash rc = hexsha c \<and> changes rc = []"
    if one: "commit_diff r c (es_rev st) = [d]" and m: "nl \<in> set (message c)"
  proof -
    from m obtain t b where "unpack_message (message c) = Inr (t, b)"
      using unpack_message_fails_iff [of "message c"]
      by (cases "unpack_message (message c)") auto
    then show ?thesis
      by (simp add: extract_commit_def one skip)
  qed
  with skip loop show ?thesis by blast
qed

theorem non_text_blob_is_skipped_witness:
  "a_blob added_logo = Some logo \<and> \<not> startswith (mime_type logo) ''text''
   \<and> process_diff example_library added_logo = Inr None
   \<and> diff_loop example_library [changed_foo, added_logo] [] =
       diff_loop example_library [changed_foo] []
   \<and> extract_commit example_library logo_repo
        \<lparr>es_rev = Sha empty_tree, es_data = [], es_stdout = []\<rparr> logo_commit =
       (\<lparr>es_rev = Rev logo_commit,
         es_data = [\<lparr>title = ''Add logo'', hash = ''d4'', body = [], changes = []\<rparr>],
         es_stdout = [progress_line ''Add logo'']\<rparr>, None)"
proof -
  have a: "a_blob added_logo = Some logo" by (simp add: added_logo_def)
  have t: "\<not> startswith (mime_type logo) ''text''" by (simp add: logo_def startswith_def)
  have d: "commit_diff logo_repo logo_commit (Sha empty_tree) = [added_logo]"
    by (simp add: logo_repo_def)
  have m: "nl \<in> set (message logo_commit)" by (simp add: logo_commit_def)
  have u: "unpack_message (message logo_commit) = Inr (''Add logo'', [])"
    by (simp add: logo_commit_def unpack_message_def nl_def)
  note th = non_text_blob_is_skipped [where d = added_logo and lib = example_library]
  from th a t have skip: "process_diff example_library added_logo = Inr None"
    by blast
  have two: "diff_loop example_library [changed_foo, added_logo] [] =
             diff_loop example_library [changed_foo] []"
    by (simp add: skip split: sum.splits option.splits)
  have "extract_commit example_library logo_repo
        \<lparr>es_rev = Sha empty_tree, es_data = [], es_stdout = []\<rparr> logo_commit =
       (\<lparr>es_rev = Rev logo_commit,
         es_data = [\<lparr>title = ''Add logo'', hash = ''d4'', body = [], changes = []\<rparr>],
         es_stdout = [progress_line ''Add logo'']\<rparr>, None)"
    by (simp add: extract_commit_def u d skip) (simp_all add: logo_commit_def)
  with a t skip two show ?thesis by blast
qed

lemma blob_sides_Inr:
  assumes "blob_sides lib ao bo = Inr (original, modified, p)"
  shows "side_lines lib ao = Inr original \<and> side_lines lib bo = Inr modified
         \<and> p = (case ao of Some a \<Rightarrow> blob_path a
                  | None \<Rightarrow> (case bo of Some b \<Rightarrow> blob_path b | None \<Rightarrow> []))"
  using assms
  by (cases "(lib, ao, bo)" rule: blob_sides.cases)
     (auto simp: side_lines_def split: sum.splits)

text \<open>
  Claim C2, as amended: every change that is emitted holds the unified diff computed with
  the lines of the previous revision's blob (\<^verbatim>\<open>b_blob\<close>, which the code names
  \<^verbatim>\<open>modified\<close>) as the "from" side and the lines of the current commit's blob
  (\<^verbatim>\<open>a_blob\<close>, named \<^verbatim>\<open>original\<close>) as the "to" side, with the path of the entry as both
  labels; an absent blob contributes no lines.
\<close>

theorem diff_from_rev_side_to_commit_side:
  assumes "process_diff lib d = Inr (Some ch)"
  shows "\<exists>before after.
           side_lines lib (rev_side d) = Inr before
           \<and> side_lines lib (commit_side d) = Inr after
           \<and> ch = \<lparr>path = label_path d,
                    diff = str_join [nl]
                      (unified_diff lib before after (label_path d) (label_path d))\<rparr>"
proof -
  from assms obtain original modified p where
    sides: "blob_sides lib (a_blob d) (b_blob d) = Inr (original, modified, p)" and
    ch: "ch = \<lparr>path = p, diff = str_join [nl] (unified_diff lib modified original p p)\<rparr>"
    by (auto simp: process_diff_def Let_def split: if_splits sum.splits)
  from blob_sides_Inr [OF sides] have
    "side_lines lib (a_blob d) = Inr original" and
    "side_lines lib (b_blob d) = Inr modified" and
    "p = label_path d"
    by (simp_all add: label_path_def)
  with ch show ?thesis
    by (simp add: rev_side_def commit_side_def)
qed

theorem diff_from_rev_side_to_commit_side_witness:
  "process_diff example_library added_foo =
     Inr (Some \<lparr>path = ''foo.txt'',
                diff = str_join [nl]
                  (unified_diff example_library [] [''a'', ''b'', []] ''foo.txt'' ''foo.txt'')\<rparr>)
   \<and> side_lines example_library (rev_side added_foo) = Inr []
   \<and> side_lines example_library (commit_side added_foo) = Inr [''a'', ''b'', []]"
proof -
  have p: "process_diff example_library added_foo =
     Inr (Some \<lparr>path = ''foo.txt'',
                diff = str_join [nl]
                  (unified_diff example_library [] [''a'', ''b'', []] ''foo.txt'' ''foo.txt'')\<rparr>)"
    by (simp add: process_diff_def added_foo_def not_text_def startswith_def foo_v1_def
        read_lines_def example_library_def nl_def)
  have r: "side_lines example_library (rev_side added_foo) = Inr []"
    by (simp add: side_lines_def rev_side_def added_foo_def)
  have c: "side_lines example_library (commit_side added_foo) = Inr [''a'', ''b'', []]"
    by (simp add: side_lines_def commit_side_def added_foo_def foo_v1_def read_lines_def
        example_library_def nl_def)
  from diff_from_rev_side_to_commit_side [OF p] p r c show ?thesis
    by simp
qed

text \<open>
  Claim C2 as stated fails: for the file that the first commit of the example adds, the
  current commit's lines are the "to" side of the diff, not its "from" side.
\<close>

theorem diff_from_commit_side_counterexample:
  "process_diff example_library added_foo \<noteq> Inr (spec_change example_library added_foo)"
  by (simp add: process_diff_def spec_change_def added_foo_def not_text_def startswith_def
      foo_v1_def read_lines_def example_library_def nl_def side_lines_def commit_side_def
      rev_side_def label_path_def example_unified_diff_def)

section \<open>Properties of the renderer and of main\<close>

lemma page_loop_False:
  "page_loop lib tpl toc False data = map (page_write lib tpl toc) data"
  by (induction data) (simp_all add: page_write_def Let_def)

lemma page_loop_True:
  "page_loop lib tpl toc True (page # rest) =
     page_write lib tpl toc page # index_write lib tpl toc page # map (page_write lib tpl toc) rest"
  by (simp add: page_write_def index_write_def Let_def page_loop_False)

lemma write_file_Inr:
  "write_file p c w = Inr w' \<Longrightarrow> files w' = (files w)(p \<mapsto> c) \<and> can_write w' = can_write w"
  by (auto simp: write_file_def split: if_splits)

lemma write_all_files:
  "write_all ws w = (w', None) \<Longrightarrow> files w' = files w ++ map_of (rev ws)"
proof (induction ws arbitrary: w)
  case Nil
  then show ?case by simp
next
  case (Cons x ws)
  obtain p c where x: "x = (p, c)" by (cases x)
  from Cons.prems obtain w1 where
    one: "write_file p c w = Inr w1" and rest: "write_all ws w1 = (w', None)"
    by (auto simp: x split: sum.splits)
  from write_file_Inr [OF one] have f1: "files w1 = (files w)(p \<mapsto> c)" by simp
  from Cons.IH [OF rest] have "files w' = (files w)(p \<mapsto> c) ++ map_of (rev ws)"
    by (simp only: f1)
  also have "\<dots> = files w ++ map_of (rev ws @ [(p, c)])"
    by (simp add: map_add_def fun_eq_iff split: option.splits)
  finally show ?case
    by (simp only: x rev.simps)
qed

lemma write_all_total:
  "\<forall>wr\<in>set ws. can_write w (fst wr) \<Longrightarrow> \<exists>w'. write_all ws w = (w', None)"
proof (induction ws arbitrary: w)
  case Nil
  then show ?case by simp
next
  case (Cons x ws)
  obtain p c where x: "x = (p, c)" by (cases x)
  from Cons.prems have "can_write w p" by (simp add: x)
  then obtain w1 where one: "write_file p c w = Inr w1"
    by (simp add: write_file_def)
  from write_file_Inr [OF one] Cons.prems have "\<forall>wr\<in>set ws. can_write w1 (fst wr)"
    by simp
  from Cons.IH [OF this] one show ?case
    by (simp add: x)
qed

lemma render_repo_data_files:
  assumes "files w base_html = Some tpl" and "rr_error (render_repo_data lib data w) = None"
  shows "\<exists>m. files (rr_world (render_repo_data lib data w)) =
           m ++ map_of (rev (page_loop lib tpl (build_toc lib data) True data))"
proof -
  from assms obtain w2 w3 where
    "write_all (page_loop lib tpl (build_toc lib data) True data) w2 = (w3, None)" and
    "rr_world (render_repo_data lib data w) = w3"
    by (auto simp: render_repo_data_def Let_def
        split: option.splits if_splits sum.splits prod.splits)
  with write_all_files [of _ w2 w3] show ?thesis
    by auto
qed

lemma page_loop_paths:
  assumes "can_write w (in_output ''index.html'')"
    and "\<forall>page\<in>set data. can_write w (in_output (html_filename lib (title page)))"
  shows "\<forall>wr\<in>set (page_loop lib tpl toc gi data). can_write w (fst wr)"
  using assms(2)
  by (induction data arbitrary: gi) (auto simp: Let_def assms(1))

lemma render_repo_data_total:
  assumes "files w base_html = Some tpl" and "files w styles = Some css"
    and "output_dir \<in> dirs w \<or> \<not> path_exists w output_dir"
    and "can_write w (in_output ''styles.css'')"
    and "can_write w (in_output ''index.html'')"
    and "\<forall>page\<in>set data. can_write w (in_output (html_filename lib (title page)))"
  shows "rr_error (render_repo_data lib data w) = None"
proof -
  define w1 where "w1 = (if path_exists w output_dir then w
                         else w\<lparr>dirs := insert output_dir (dirs w)\<rparr>)"
  have f1: "files w1 = files w" and c1: "can_write w1 = can_write w"
    by (simp_all add: w1_def)
  from assms(3) have d1: "output_dir \<in> dirs w1"
    by (auto simp: w1_def)
  from assms(4) c1 obtain w2 where
    st: "write_file (in_output ''styles.css'') css w1 = Inr w2"
    by (simp add: write_file_def)
  from write_file_Inr [OF st] c1 have c2: "can_write w2 = can_write w" by simp
  from page_loop_paths [OF assms(5,6)] c2
  have "\<forall>wr\<in>set (page_loop lib tpl (build_toc lib data) True data). can_write w2 (fst wr)"
    by simp
  from write_all_total [OF this] obtain w3 where
    "write_all (page_loop lib tpl (build_toc lib data) True data) w2 = (w3, None)"
    by blast
  with assms(1,2) f1 d1 st show ?thesis
    by (simp add: render_repo_data_def Let_def w1_def [symmetric])
qed

text \<open>A first page whose file cannot be opened ends the renderer with the exception.\<close>

lemma render_repo_data_refused:
  assumes "files w base_html = Some tpl" and "files w styles = Some css"
    and "output_dir \<in> dirs w \<or> \<not> path_exists w output_dir"
    and "can_write w (in_output ''styles.css'')"
    and "\<not> can_write w (in_output (html_filename lib (title page)))"
  shows "rr_error (render_repo_data lib (page # rest) w) = Some OSError"
proof -
  define w1 where "w1 = (if path_exists w output_dir then w
                         else w\<lparr>dirs := insert output_dir (dirs w)\<rparr>)"
  have f1: "files w1 = files w" and c1: "can_write w1 = can_write w"
    by (simp_all add: w1_def)
  from assms(3) have d1: "output_dir \<in> dirs w1"
    by (auto simp: w1_def)
  from assms(4) c1 obtain w2 where
    st: "write_file (in_output ''styles.css'') css w1 = Inr w2"
    by (simp add: write_file_def)
  from write_file_Inr [OF st] c1 have c2: "can_write w2 = can_write w" by simp
  with assms(5) have "write_file (in_output (html_filename lib (title page))) c w2 = Inl OSError"
    for c
    by (simp add: write_file_def)
  with assms(1,2) f1 d1 st show ?thesis
    by (simp add: render_repo_data_def Let_def w1_def [symmetric])
qed

lemma map_of_rev_last:
  "q \<notin> fst ` set bs \<Longrightarrow> map_of (rev (as @ (q, v) # bs)) q = Some v"
  by (simp add: map_add_Some_iff map_of_eq_None_iff)

lemma in_output_inject: "in_output a = in_output b \<longleftrightarrow> a = b"
  by (simp add: in_output_def)

lemma html_filename_inject:
  "html_filename lib s = html_filename lib t \<longleftrightarrow> slugify lib s = slugify lib t"
  by (simp add: html_filename_def)

lemma html_filename_index:
  "html_filename lib t = ''index.html'' \<longleftrightarrow> slugify lib t = ''index''"
proof -
  have "slugify lib t @ ''.html'' = ''index'' @ ''.html'' \<longleftrightarrow> slugify lib t = ''index''"
    by (rule append_same_eq)
  then show ?thesis by (simp add: html_filename_def)
qed

lemma map_of_rev_nth:
  assumes "n < length ws" and "ws ! n = (q, v)"
    and "\<forall>m. n < m \<and> m < length ws \<longrightarrow> fst (ws ! m) \<noteq> q"
  shows "map_of (rev ws) q = Some v"
proof -
  have ws: "ws = take n ws @ (q, v) # drop (Suc n) ws"
    using assms(1,2) by (metis id_take_nth_drop)
  have "q \<notin> fst ` set (drop (Suc n) ws)"
  proof
    assume "q \<in> fst ` set (drop (Suc n) ws)"
    then obtain x where x: "x \<in> set (drop (Suc n) ws)" and q: "fst x = q" by auto
    from x obtain i where "i < length (drop (Suc n) ws)" and "drop (Suc n) ws ! i = x"
      by (auto simp: in_set_conv_nth)
    then have "Suc n + i < length ws" and "ws ! (Suc n + i) = x"
      by auto
    with assms(3) q show False
      by (metis add_Suc less_add_Suc1)
  qed
  from map_of_rev_last [OF this, of "take n ws" v] ws show ?thesis
    by simp
qed

lemma not_in_fst_map:
  "\<forall>x\<in>set xs. fst (f x) \<noteq> q \<Longrightarrow> q \<notin> fst ` set (map f xs)"
  by (induction xs) auto

text \<open>
  Claim C5, as amended: for a non-empty sequence of records in which no title slugifies to
  \<^verbatim>\<open>index\<close> and no later title slugifies to the same string as the first title, the
  renderer writes \<^verbatim>\<open>index.html\<close> exactly once, from the first record, right after it has
  written the page of the first record; at the end \<^verbatim>\<open>index.html\<close> and the file of the
  first record hold the same content, the page of the first record.
\<close>

theorem index_written_once:
  assumes "data \<noteq> []"
    and "\<forall>page\<in>set data. slugify lib (title page) \<noteq> ''index''"
    and "\<forall>page\<in>set (tl data). slugify lib (title page) \<noteq> slugify lib (title (hd data))"
    and "files w base_html = Some tpl"
    and "rr_error (render_repo_data lib data w) = None"
  shows "filter (\<lambda>wr. fst wr = in_output ''index.html'')
           (page_loop lib tpl (build_toc lib data) True data) =
         [(in_output ''index.html'',
           template_render lib tpl (page_ctx lib (build_toc lib data) (hd data)))]
       \<and> page_loop lib tpl (build_toc lib data) True data ! 0 =
         (in_output (html_filename lib (title (hd data))),
          template_render lib tpl (page_ctx lib (build_toc lib data) (hd data)))
       \<and> files (rr_world (render_repo_data lib data w)) (in_output ''index.html'') =
         Some (template_render lib tpl (page_ctx lib (build_toc lib data) (hd data)))
       \<and> files (rr_world (render_repo_data lib data w))
           (in_output (html_filename lib (title (hd data)))) =
         files (rr_world (render_repo_data lib data w)) (in_output ''index.html'')"
proof -
  let ?toc = "build_toc lib data"
  let ?ix = "in_output ''index.html''"
  from assms(1) obtain page rest where data: "data = page # rest"
    by (cases data) auto
  let ?q = "in_output (html_filename lib (title page))"
  let ?v = "template_render lib tpl (page_ctx lib ?toc page)"
  have loop: "page_loop lib tpl ?toc True data =
      page_write lib tpl ?toc page # index_write lib tpl ?toc page #
      map (page_write lib tpl ?toc) rest"
    unfolding data by (simp only: page_loop_True)
  have other: "fst (page_write lib tpl ?toc x) \<noteq> ?ix" if "x \<in> set data" for x
    using that assms(2) by (simp add: page_write_def in_output_inject html_filename_index)
  have nr: "\<forall>x\<in>set rest. fst (page_write lib tpl ?toc x) \<noteq> ?ix"
    using other by (simp add: data)
  have rest: "filter (\<lambda>wr. fst wr = ?ix) (map (page_write lib tpl ?toc) rest) = []"
    using nr by (auto simp: filter_empty_conv)
  have once: "filter (\<lambda>wr. fst wr = ?ix) (page_loop lib tpl ?toc True data) =
      [(?ix, template_render lib tpl (page_ctx lib ?toc (hd data)))]"
    using other [of page] rest by (simp add: loop) (simp add: index_write_def data)
  have first: "page_loop lib tpl ?toc True data ! 0 =
      (in_output (html_filename lib (title (hd data))),
       template_render lib tpl (page_ctx lib ?toc (hd data)))"
    by (simp add: loop) (simp add: page_write_def data)
  from render_repo_data_files [OF assms(4,5)] obtain m where
    m: "files (rr_world (render_repo_data lib data w)) =
          m ++ map_of (rev (page_loop lib tpl ?toc True data))"
    by blast
  from not_in_fst_map [OF nr]
  have "?ix \<notin> fst ` set (map (page_write lib tpl ?toc) rest)" .
  from map_of_rev_last [OF this, of "[page_write lib tpl ?toc page]" ?v]
  have "map_of (rev (page_loop lib tpl ?toc True data)) ?ix = Some ?v"
    by (simp add: loop index_write_def)
  with m have final: "files (rr_world (render_repo_data lib data w)) ?ix =
      Some (template_render lib tpl (page_ctx lib ?toc (hd data)))"
    by (simp add: data)
  from assms(3) have "\<forall>x\<in>set rest. fst (page_write lib tpl ?toc x) \<noteq> ?q"
    by (simp add: data page_write_def in_output_inject html_filename_inject)
  from not_in_fst_map [OF this]
  have "?q \<notin> fst ` set (map (page_write lib tpl ?toc) rest)" .
  moreover from other [of page] have "?q \<noteq> ?ix"
    by (simp add: page_write_def data)
  ultimately have "?q \<notin> fst ` set (index_write lib tpl ?toc page #
      map (page_write lib tpl ?toc) rest)"
    by (simp add: index_write_def)
  from map_of_rev_last [OF this, of "[]" ?v]
  have "map_of (rev (page_loop lib tpl ?toc True data)) ?q = Some ?v"
    by (simp add: loop page_write_def)
  with m final have same: "files (rr_world (render_repo_data lib data w))
           (in_output (html_filename lib (title (hd data)))) =
         files (rr_world (render_repo_data lib data w)) ?ix"
    by (simp add: data)
  from once first final same show ?thesis by blast
qed

text \<open>
  Claim C6: when the titles of two records slugify to the same string, the renderer ends
  without exception wherever the file system lets it write its files (names are not
  checked for uniqueness), and the one file of that name holds, at the end, the page of
  the record processed last among those with that slug.
\<close>

theorem later_page_overwrites:
  assumes "files w base_html = Some tpl" and "files w styles = Some css"
    and "output_dir \<in> dirs w \<or> \<not> path_exists w output_dir"
    and "can_write w (in_output ''styles.css'')"
    and "can_write w (in_output ''index.html'')"
    and "\<forall>page\<in>set data. can_write w (in_output (html_filename lib (title page)))"
    and "i < j" and "j < length data"
    and "slugify lib (title (data ! i)) = slugify lib (title (data ! j))"
    and "\<forall>k. j < k \<and> k < length data \<longrightarrow>
           slugify lib (title (data ! k)) \<noteq> slugify lib (title (data ! j))"
  shows "rr_error (render_repo_data lib data w) = None
       \<and> files (rr_world (render_repo_data lib data w))
           (in_output (html_filename lib (title (data ! i)))) =
         Some (template_render lib tpl (page_ctx lib (build_toc lib data) (data ! j)))"
proof -
  let ?toc = "build_toc lib data"
  let ?ws = "page_loop lib tpl ?toc True data"
  let ?q = "in_output (html_filename lib (title (data ! j)))"
  have ok: "rr_error (render_repo_data lib data w) = None"
    using assms(1-6) by (rule render_repo_data_total)
  from assms(7,8) obtain page rest where data: "data = page # rest"
    by (cases data) auto
  have loop: "?ws = page_write lib tpl ?toc page # index_write lib tpl ?toc page #
      map (page_write lib tpl ?toc) rest"
    unfolding data by (simp only: page_loop_True)
  have len: "length ?ws = Suc (length data)"
    by (simp add: loop) (simp add: data)
  have nth: "?ws ! Suc m = page_write lib tpl ?toc (data ! m)" if "0 < m" and "m < length data" for m
    using that by (cases m) (simp_all add: loop, simp add: data)
  have a: "Suc j < length ?ws" using assms(8) len by simp
  have b: "?ws ! Suc j = (?q, template_render lib tpl (page_ctx lib ?toc (data ! j)))"
    using nth [of j] assms(7,8) by (simp add: page_write_def)
  have c: "\<forall>m. Suc j < m \<and> m < length ?ws \<longrightarrow> fst (?ws ! m) \<noteq> ?q"
  proof (intro allI impI)
    fix m assume m: "Suc j < m \<and> m < length ?ws"
    then obtain k where k: "m = Suc k" by (cases m) auto
    with m len have jk: "j < k" and kl: "k < length data" by auto
    with nth [of k] have "?ws ! m = page_write lib tpl ?toc (data ! k)"
      by (simp add: k)
    moreover from assms(10) jk kl
    have "slugify lib (title (data ! k)) \<noteq> slugify lib (title (data ! j))" by blast
    ultimately show "fst (?ws ! m) \<noteq> ?q"
      by (simp add: page_write_def in_output_inject html_filename_inject)
  qed
  from render_repo_data_files [OF assms(1) ok] obtain m where
    m: "files (rr_world (render_repo_data lib data w)) = m ++ map_of (rev ?ws)"
    by blast
  from map_of_rev_nth [OF a b c] m
  have "files (rr_world (render_repo_data lib data w)) ?q =
      Some (template_render lib tpl (page_ctx lib ?toc (data ! j)))"
    by simp
  moreover have "html_filename lib (title (data ! i)) = html_filename lib (title (data ! j))"
    using assms(9) by (simp add: html_filename_inject)
  ultimately show ?thesis using ok by simp
qed

lemma example_slugs:
  "example_slugify ''Add foo'' = ''add-foo''"
  "example_slugify ''Fix bug'' = ''fix-bug''"
  "example_slugify ''Fix Bug!'' = ''fix-bug''"
  "example_slugify ''fix-bug'' = ''fix-bug''"
  "example_slugify ''Index'' = ''index''"
  by code_simp+

lemma example_template_file: "files example_world base_html = Some ''<html>''"
  by (simp add: example_world_def base_html_def styles_def)

lemma example_styles_file: "files example_world styles = Some ''body{}''"
  by (simp add: example_world_def)

lemma example_no_output: "\<not> path_exists example_world output_dir"
  by (simp add: path_exists_def example_world_def output_dir_def base_html_def styles_def)

lemma example_can_write: "can_write example_world p \<longleftrightarrow> length p \<le> 255"
  by (simp add: example_world_def)

lemma example_render_ok:
  assumes "\<forall>page\<in>set data. length (slugify example_library (title page)) \<le> 200"
  shows "rr_error (render_repo_data example_library data example_world) = None"
proof -
  have a: "output_dir \<in> dirs example_world \<or> \<not> path_exists example_world output_dir"
    using example_no_output by simp
  have b: "can_write example_world (in_output ''styles.css'')"
    by (simp add: example_can_write in_output_def output_dir_def)
  have c: "can_write example_world (in_output ''index.html'')"
    by (simp add: example_can_write in_output_def output_dir_def)
  have d: "\<forall>page\<in>set data.
      can_write example_world (in_output (html_filename example_library (title page)))"
    using assms by (auto simp: example_can_write in_output_def output_dir_def html_filename_def)
  from example_template_file example_styles_file a b c d show ?thesis
    by (rule render_repo_data_total)
qed

lemma example_data_ok:
  "rr_error (render_repo_data example_library example_data example_world) = None"
  by (rule example_render_ok) (simp add: example_data_def example_library_def example_slugs)

lemma collide_data_ok:
  "rr_error (render_repo_data example_library collide_data example_world) = None"
  by (rule example_render_ok) (simp add: collide_data_def example_library_def example_slugs)

theorem index_written_once_witness:
  "example_data \<noteq> []
   \<and> slugify example_library (title (example_data ! 0)) = ''add-foo''
   \<and> slugify example_library (title (example_data ! 1)) = ''fix-bug''
   \<and> tl example_data = [example_data ! 1]
   \<and> files example_world base_html = Some ''<html>''
   \<and> rr_error (render_repo_data example_library example_data example_world) = None
   \<and> filter (\<lambda>wr. fst wr = in_output ''index.html'')
        (page_loop example_library ''<html>'' (build_toc example_library example_data) True
           example_data) =
      [(in_output ''index.html'',
        template_render example_library ''<html>''
          (page_ctx example_library (build_toc example_library example_data) (hd example_data)))]
   \<and> files (rr_world (render_repo_data example_library example_data example_world))
        (in_output ''index.html'') =
      Some (template_render example_library ''<html>''
          (page_ctx example_library (build_toc example_library example_data) (hd example_data)))
   \<and> files (rr_world (render_repo_data example_library example_data example_world))
        (in_output (html_filename example_library (title (hd example_data)))) =
      files (rr_world (render_repo_data example_library example_data example_world))
        (in_output ''index.html'')"
proof -
  have h1: "example_data \<noteq> []" by (simp add: example_data_def)
  have h2: "\<forall>page\<in>set example_data. slugify example_library (title page) \<noteq> ''index''"
    by (simp add: example_data_def example_library_def example_slugs)
  have h3: "\<forall>page\<in>set (tl example_data).
      slugify example_library (title page) \<noteq> slugify example_library (title (hd example_data))"
    by (simp add: example_data_def example_library_def example_slugs)
  note h4 = example_template_file
  note h5 = example_data_ok
  have s0: "slugify example_library (title (example_data ! 0)) = ''add-foo''"
    by (simp add: example_data_def example_library_def example_slugs)
  have s1: "slugify example_library (title (example_data ! 1)) = ''fix-bug''"
    by (simp add: example_data_def example_library_def example_slugs)
  have t: "tl example_data = [example_data ! 1]"
    by (simp add: example_data_def)
  from index_written_once [OF h1 h2 h3 h4 h5] h1 s0 s1 t h4 h5 show ?thesis by blast
qed

text \<open>
  Claim C5 as stated fails in two ways. When the second title slugifies to \<^verbatim>\<open>index\<close>,
  the file \<^verbatim>\<open>index.html\<close> is written twice and ends with the page of the second record.
  When the second title slugifies to the same string as the first, the file of the first
  record ends with the page of the second record, and \<^verbatim>\<open>index.html\<close> differs from it.
\<close>

theorem index_written_once_counterexample:
  "map fst (page_loop example_library ''<html>'' (build_toc example_library index_data) True
       index_data) =
     [''output/add-foo.html'', ''output/index.html'', ''output/index.html'']
   \<and> files (rr_world (render_repo_data example_library index_data example_world))
        ''output/index.html'' =
      Some (template_render example_library ''<html>''
          (page_ctx example_library (build_toc example_library index_data) (index_data ! 1)))
   \<and> template_render example_library ''<html>''
        (page_ctx example_library (build_toc example_library index_data) (index_data ! 1)) \<noteq>
      template_render example_library ''<html>''
        (page_ctx example_library (build_toc example_library index_data) (index_data ! 0))
   \<and> in_output (html_filename example_library (title (collide_data ! 0))) =
      ''output/fix-bug.html''
   \<and> files (rr_world (render_repo_data example_library collide_data example_world))
        ''output/index.html'' \<noteq>
      files (rr_world (render_repo_data example_library collide_data example_world))
        ''output/fix-bug.html''"
proof -
  have names: "html_filename example_library ''Add foo'' = ''add-foo.html''"
    "html_filename example_library ''Index'' = ''index.html''"
    "html_filename example_library ''Fix Bug!'' = ''fix-bug.html''"
    "html_filename example_library ''fix-bug'' = ''fix-bug.html''"
    by (simp_all add: html_filename_def example_library_def example_slugs)
  have a: "map fst (page_loop example_library ''<html>'' (build_toc example_library index_data) True
       index_data) = [''output/add-foo.html'', ''output/index.html'', ''output/index.html'']"
    by (simp add: index_data_def Let_def names in_output_def output_dir_def)
  have b: "files (rr_world (render_repo_data example_library index_data example_world))
        ''output/index.html'' =
      Some (template_render example_library ''<html>''
          (page_ctx example_library (build_toc example_library index_data) (index_data ! 1)))"
    by (simp add: render_repo_data_def example_world_def Let_def path_exists_def base_html_def
      styles_def output_dir_def index_data_def names in_output_def write_file_def)
  have c: "template_render example_library ''<html>''
        (page_ctx example_library (build_toc example_library index_data) (index_data ! 1)) \<noteq>
      template_render example_library ''<html>''
        (page_ctx example_library (build_toc example_library index_data) (index_data ! 0))"
    by (simp add: example_library_def example_template_def page_ctx_def index_data_def)
  have d: "in_output (html_filename example_library (title (collide_data ! 0))) =
      ''output/fix-bug.html''"
    by (simp add: collide_data_def names in_output_def output_dir_def)
  have e: "files (rr_world (render_repo_data example_library collide_data example_world))
        ''output/index.html'' \<noteq>
      files (rr_world (render_repo_data example_library collide_data example_world))
        ''output/fix-bug.html''"
    by (simp add: render_repo_data_def example_world_def Let_def path_exists_def base_html_def
      styles_def output_dir_def collide_data_def names in_output_def write_file_def)
      (simp add: example_library_def example_template_def page_ctx_def)
  from a b c d e show ?thesis by blast
qed

theorem later_page_overwrites_witness:
  "files example_world base_html = Some ''<html>''
   \<and> files example_world styles = Some ''body{}''
   \<and> \<not> path_exists example_world output_dir
   \<and> can_write example_world (in_output ''styles.css'')
   \<and> can_write example_world (in_output ''index.html'')
   \<and> can_write example_world ''output/fix-bug.html''
   \<and> (0::nat) < 1 \<and> 1 < length collide_data
   \<and> slugify example_library (title (collide_data ! 0)) = ''fix-bug''
   \<and> slugify example_library (title (collide_data ! 1)) = ''fix-bug''
   \<and> rr_error (render_repo_data example_library collide_data example_world) = None
   \<and> files (rr_world (render_repo_data example_library collide_data example_world))
        ''output/fix-bug.html'' =
      Some (template_render example_library ''<html>''
          (page_ctx example_library (build_toc example_library collide_data) (collide_data ! 1)))"
proof -
  note h1 = example_template_file
  note h2 = example_styles_file
  have h3: "output_dir \<in> dirs example_world \<or> \<not> path_exists example_world output_dir"
    using example_no_output by simp
  have h4: "can_write example_world (in_output ''styles.css'')"
    by (simp add: example_can_write in_output_def output_dir_def)
  have h5: "can_write example_world (in_output ''index.html'')"
    by (simp add: example_can_write in_output_def output_dir_def)
  have s0: "slugify example_library (title (collide_data ! 0)) = ''fix-bug''"
    by (simp add: collide_data_def example_library_def example_slugs)
  have s1: "slugify example_library (title (collide_data ! 1)) = ''fix-bug''"
    by (simp add: collide_data_def example_library_def example_slugs)
  have cw: "can_write example_world ''output/fix-bug.html''"
    by (simp add: example_can_write)
  have h6: "\<forall>page\<in>set collide_data.
      can_write example_world (in_output (html_filename example_library (title page)))"
    by (simp add: collide_data_def example_library_def example_slugs example_can_write
        in_output_def output_dir_def html_filename_def)
  have h7: "(0::nat) < 1" by simp
  have h8: "1 < length collide_data" by (simp add: collide_data_def)
  have h9: "slugify example_library (title (collide_data ! 0)) =
            slugify example_library (title (collide_data ! 1))"
    by (simp only: s0 s1)
  have h10: "\<forall>k. 1 < k \<and> k < length collide_data \<longrightarrow>
      slugify example_library (title (collide_data ! k)) \<noteq>
      slugify example_library (title (collide_data ! 1))"
    by (simp add: collide_data_def)
  have n: "in_output (html_filename example_library (title (collide_data ! 0))) =
      ''output/fix-bug.html''"
    by (simp add: in_output_def html_filename_def s0 output_dir_def)
  note th = later_page_overwrites [OF h1 h2 h3 h4 h5 h6 h7 h8 h9 h10]
  from th have ok: "rr_error (render_repo_data example_library collide_data example_world) = None"
    by blast
  from th
  have "files (rr_world (render_repo_data example_library collide_data example_world))
        (in_output (html_filename example_library (title (collide_data ! 0)))) =
      Some (template_render example_library ''<html>''
          (page_ctx example_library (build_toc example_library collide_data) (collide_data ! 1)))"
    by blast
  then have "files (rr_world (render_repo_data example_library collide_data example_world))
        ''output/fix-bug.html'' =
      Some (template_render example_library ''<html>''
          (page_ctx example_library (build_toc example_library collide_data) (collide_data ! 1)))"
    unfolding n .
  with h1 h2 example_no_output h4 h5 cw h7 h8 s0 s1 ok show ?thesis by blast
qed

lemma page_write_in_loop:
  "page \<in> set data \<Longrightarrow> page_write lib tpl toc page \<in> set (page_loop lib tpl toc gi data)"
  by (induction data arbitrary: gi) (auto simp: page_write_def Let_def)

lemma page_loop_writes:
  "wr \<in> set (page_loop lib tpl toc gi data) \<Longrightarrow>
     \<exists>page\<in>set data. snd wr = template_render lib tpl (page_ctx lib toc page)"
  by (induction data arbitrary: gi) (auto simp: Let_def split: if_splits)

lemma map_of_rev_in_set:
  assumes "q \<in> fst ` set ws"
  shows "\<exists>v. map_of (rev ws) q = Some v \<and> (q, v) \<in> set ws"
proof -
  from assms have "map_of (rev ws) q \<noteq> None"
    by (simp add: map_of_eq_None_iff)
  then obtain v where v: "map_of (rev ws) q = Some v" by blast
  then have "(q, v) \<in> set (rev ws)" by (rule map_of_SomeD)
  with v show ?thesis by simp
qed

text \<open>
  Claim C8: the table of contents has one entry per record, in the order of the records,
  with the record's title and, as path, the slugified title with the extension \<^verbatim>\<open>.html\<close>,
  written relative to the current directory (with \<^verbatim>\<open>./\<close> in front); every write of the
  second loop renders a context that holds this same table, and so does every page file
  left at the end.
\<close>

theorem toc_shared_by_all_pages:
  "length (build_toc lib data) = length data
   \<and> (\<forall>k<length data.
        toc_title (build_toc lib data ! k) = title (data ! k)
        \<and> toc_path (build_toc lib data ! k) = ''./'' @ slugify lib (title (data ! k)) @ ''.html'')
   \<and> (\<forall>wr\<in>set (page_loop lib tpl (build_toc lib data) True data).
        \<exists>page\<in>set data.
          snd wr = template_render lib tpl (page_ctx lib (build_toc lib data) page)
          \<and> ctx_toc (page_ctx lib (build_toc lib data) page) = build_toc lib data)
   \<and> (files w base_html = Some tpl \<and> rr_error (render_repo_data lib data w) = None \<longrightarrow>
        (\<forall>page\<in>set data. \<exists>page'\<in>set data.
           files (rr_world (render_repo_data lib data w))
             (in_output (html_filename lib (title page))) =
           Some (template_render lib tpl (page_ctx lib (build_toc lib data) page'))))"
proof -
  let ?toc = "build_toc lib data"
  let ?ws = "page_loop lib tpl ?toc True data"
  have a: "length ?toc = length data"
    by (simp add: build_toc_def)
  have b: "\<forall>k<length data. toc_title (?toc ! k) = title (data ! k)
        \<and> toc_path (?toc ! k) = ''./'' @ slugify lib (title (data ! k)) @ ''.html''"
    by (simp add: build_toc_def html_filename_def)
  have c: "\<forall>wr\<in>set ?ws. \<exists>page\<in>set data.
          snd wr = template_render lib tpl (page_ctx lib ?toc page)
          \<and> ctx_toc (page_ctx lib ?toc page) = ?toc"
  proof
    fix wr assume "wr \<in> set ?ws"
    from page_loop_writes [OF this] obtain page where
      "page \<in> set data" and "snd wr = template_render lib tpl (page_ctx lib ?toc page)"
      by blast
    moreover have "ctx_toc (page_ctx lib ?toc page) = ?toc"
      by (simp add: page_ctx_def)
    ultimately show "\<exists>page\<in>set data.
          snd wr = template_render lib tpl (page_ctx lib ?toc page)
          \<and> ctx_toc (page_ctx lib ?toc page) = ?toc"
      by blast
  qed
  have d: "\<forall>page\<in>set data. \<exists>page'\<in>set data.
           files (rr_world (render_repo_data lib data w))
             (in_output (html_filename lib (title page))) =
           Some (template_render lib tpl (page_ctx lib ?toc page'))"
    if ok: "files w base_html = Some tpl" "rr_error (render_repo_data lib data w) = None"
  proof
    fix page assume page: "page \<in> set data"
    let ?q = "in_output (html_filename lib (title page))"
    from render_repo_data_files [OF ok] obtain m where
      m: "files (rr_world (render_repo_data lib data w)) = m ++ map_of (rev ?ws)"
      by blast
    from page_write_in_loop [OF page, of lib tpl ?toc True]
    have "?q \<in> fst ` set ?ws"
      by (force simp: page_write_def)
    from map_of_rev_in_set [OF this] obtain v where
      v: "map_of (rev ?ws) ?q = Some v" and mem: "(?q, v) \<in> set ?ws"
      by blast
    from page_loop_writes [OF mem] obtain page' where
      "page' \<in> set data" and "v = template_render lib tpl (page_ctx lib ?toc page')"
      by auto
    with m v show "\<exists>page'\<in>set data.
           files (rr_world (render_repo_data lib data w)) ?q =
           Some (template_render lib tpl (page_ctx lib ?toc page'))"
      by auto
  qed
  from a b c d show ?thesis by blast
qed

theorem toc_shared_by_all_pages_witness:
  "length (build_toc example_library example_data) = 2
   \<and> toc_title (build_toc example_library example_data ! 1) = ''Fix bug''
   \<and> toc_path (build_toc example_library example_data ! 1) = ''./fix-bug.html''
   \<and> files example_world base_html = Some ''<html>''
   \<and> rr_error (render_repo_data example_library example_data example_world) = None
   \<and> files (rr_world (render_repo_data example_library example_data example_world))
        ''output/fix-bug.html'' \<noteq> None"
proof -
  note th = toc_shared_by_all_pages
    [where lib = example_library and data = example_data and w = example_world
       and tpl = "''<html>''"]
  have len: "length example_data = 2" by (simp add: example_data_def)
  have k: "(1::nat) < length example_data" by (simp add: len)
  have t: "title (example_data ! 1) = ''Fix bug''" by (simp add: example_data_def)
  have s: "slugify example_library ''Fix bug'' = ''fix-bug''"
    by (simp add: example_library_def example_slugs)
  have p: "example_data ! 1 \<in> set example_data" using k by (rule nth_mem)
  have n: "in_output (html_filename example_library (title (example_data ! 1))) =
      ''output/fix-bug.html''"
    by (simp only: t) (simp add: in_output_def html_filename_def s output_dir_def)
  from th have "length (build_toc example_library example_data) = 2"
    by (simp only: len)
  moreover from th k have "toc_title (build_toc example_library example_data ! 1) = ''Fix bug''
      \<and> toc_path (build_toc example_library example_data ! 1) = ''./fix-bug.html''"
    by (simp only: t s) simp
  moreover from th example_template_file example_data_ok p
  have "\<exists>page'\<in>set example_data.
        files (rr_world (render_repo_data example_library example_data example_world))
          (in_output (html_filename example_library (title (example_data ! 1)))) =
        Some (template_render example_library ''<html>''
               (page_ctx example_library (build_toc example_library example_data) page'))"
    by blast
  ultimately show ?thesis
    using example_template_file example_data_ok by (auto simp only: n)
qed

text \<open>
  Claim C7, as amended: rendering leaves the records and their changes as extraction made
  them; the HTML of each diff (the markdown rendering of the diff in a fenced block tagged
  \<^verbatim>\<open>diff\<close>) is stored in a new entry of the page's context, beside the unchanged path.
\<close>

theorem rendering_leaves_changes_untouched:
  "rr_data (render_repo_data lib data w) = data
   \<and> length (ctx_changes (page_ctx lib toc page)) = length (changes page)
   \<and> (\<forall>k<length (changes page).
        path (ctx_changes (page_ctx lib toc page) ! k) = path (changes page ! k)
        \<and> diff (ctx_changes (page_ctx lib toc page) ! k) =
            markdown lib (''``` diff'' @ [nl] @ diff (changes page ! k) @ [nl] @ ''```'')
              [''codehilite'', ''fenced_code''])"
proof -
  have "rr_data (render_repo_data lib data w) = data"
    by (simp add: render_repo_data_def Let_def split: option.splits sum.splits prod.splits)
  moreover have "length (ctx_changes (page_ctx lib toc page)) = length (changes page)"
    by (simp add: page_ctx_def render_changes_def)
  moreover have "\<forall>k<length (changes page).
        path (ctx_changes (page_ctx lib toc page) ! k) = path (changes page ! k)
        \<and> diff (ctx_changes (page_ctx lib toc page) ! k) =
            markdown lib (''``` diff'' @ [nl] @ diff (changes page ! k) @ [nl] @ ''```'')
              [''codehilite'', ''fenced_code'']"
    by (simp add: page_ctx_def render_changes_def render_markdown_def fenced_def)
  ultimately show ?thesis by blast
qed

theorem rendering_leaves_changes_untouched_witness:
  "rr_data (render_repo_data example_library example_data example_world) = example_data
   \<and> diff (ctx_changes (page_ctx example_library [] (example_data ! 0)) ! 0) =
       ''<p>``` diff'' @ [nl] @ diff (changes (example_data ! 0) ! 0) @ [nl] @ ''```</p>''"
proof -
  note th = rendering_leaves_changes_untouched
    [where lib = example_library and data = example_data and w = example_world
       and toc = "[]" and page = "example_data ! 0"]
  have k: "0 < length (changes (example_data ! 0))" by (simp add: example_data_def)
  from th k have "diff (ctx_changes (page_ctx example_library [] (example_data ! 0)) ! 0) =
      markdown example_library
        (''``` diff'' @ [nl] @ diff (changes (example_data ! 0) ! 0) @ [nl] @ ''```'')
        [''codehilite'', ''fenced_code'']"
    by blast
  then have "diff (ctx_changes (page_ctx example_library [] (example_data ! 0)) ! 0) =
       ''<p>``` diff'' @ [nl] @ diff (changes (example_data ! 0) ! 0) @ [nl] @ ''```</p>''"
    by (simp add: example_library_def example_markdown_def)
  with th show ?thesis by blast
qed

text \<open>
  Claim C7 as stated fails: after rendering, the first change of the first record of the
  example still holds its unified-diff text, which differs from its HTML rendering.
\<close>

theorem diff_replaced_in_place_counterexample:
  "diff (changes (rr_data (render_repo_data example_library example_data example_world) ! 0) ! 0) =
     diff (changes (example_data ! 0) ! 0)
   \<and> diff (changes (rr_data (render_repo_data example_library example_data example_world) ! 0) ! 0) \<noteq>
     render_markdown example_library (fenced (diff (changes (example_data ! 0) ! 0)))"
proof -
  have "rr_data (render_repo_data example_library example_data example_world) = example_data"
    by (simp add: render_repo_data_def Let_def split: option.splits sum.splits prod.splits)
  moreover have "diff (changes (example_data ! 0) ! 0) \<noteq>
     render_markdown example_library (fenced (diff (changes (example_data ! 0) ! 0)))"
    by (simp add: render_markdown_def example_library_def example_markdown_def fenced_def
        example_data_def)
  ultimately show ?thesis by simp
qed

text \<open>
  Claim C9: with fewer than two elements in \<^verbatim>\<open>argv\<close> the program writes one message to
  standard output and exits with code 1; with an argument whose path does not exist it
  writes one message to standard error and exits with code 1. In both cases nothing else
  of the world changes: no progress line, no file, no directory.
\<close>

theorem main_usage_errors:
  "(length argv < 2 \<longrightarrow>
      main lib argv w = (w\<lparr>stdout := stdout w @ [''Please provider a repo'' @ [nl]]\<rparr>, Exited 1))
   \<and> (argv = prog # arg # rest \<and> \<not> path_exists w (path_str lib arg) \<longrightarrow>
      main lib argv w =
        (w\<lparr>stderr := stderr w @ [path_str lib arg @ '' doesn'' @ [squote] @ ''t exist'']\<rparr>,
         Exited 1))"
  by (simp add: main_def Let_def)

theorem main_usage_errors_witness:
  "length [''main.py''] < 2
   \<and> main example_library [''main.py''] example_world =
       (example_world\<lparr>stdout := [''Please provider a repo'' @ [nl]]\<rparr>, Exited 1)
   \<and> \<not> path_exists example_world (path_str example_library ''missing'')
   \<and> main example_library [''main.py'', ''missing''] example_world =
       (example_world\<lparr>stderr := [''missing doesn'' @ [squote] @ ''t exist'']\<rparr>, Exited 1)"
proof -
  have a: "length [''main.py''] < 2" by simp
  have b: "\<not> path_exists example_world (path_str example_library ''missing'')"
    by (simp add: path_exists_def example_world_def example_library_def base_html_def styles_def)
  have o: "stdout example_world = []" "stderr example_world = []"
    by (simp_all add: example_world_def)
  have p: "path_str example_library ''missing'' = ''missing''"
    by (simp add: example_library_def)
  from main_usage_errors [of "[''main.py'']" example_library example_world] a
  have c: "main example_library [''main.py''] example_world =
       (example_world\<lparr>stdout := [''Please provider a repo'' @ [nl]]\<rparr>, Exited 1)"
    by (simp add: o)
  from main_usage_errors [of "[''main.py'', ''missing'']" example_library example_world
      "''main.py''" "''missing''" "[]"] b
  have d: "main example_library [''main.py'', ''missing''] example_world =
       (example_world\<lparr>stderr := [''missing doesn'' @ [squote] @ ''t exist'']\<rparr>, Exited 1)"
    by (simp add: o p)
  from a b c d show ?thesis by blast
qed

end
